theory Spec2Isabelle
  imports Main "HOL-Library.Word"
begin

unbundle bit_operations_syntax

section \<open>The XML reader (package rdfloader)\<close>

subsection \<open>Data model\<close>

text \<open>
  The reader works on Go runes. A rune is modelled by its code point, a Go string by
  the list of its code points; \<open>runes\<close> turns an ASCII literal into one.
\<close>

type_synonym rune = nat
type_synonym gostring = "rune list"

definition runes :: "string \<Rightarrow> gostring" where
  "runes cs = map of_char cs"

text \<open>The reader's position in the file is the list of runes not yet consumed.\<close>

type_synonym XMLReader = "rune list"

record Attribute =
  Name :: gostring
  SchemaName :: gostring
  Value :: gostring

record Tag =
  TagSchemaName :: gostring
  TagName :: gostring
  Attrs :: "Attribute list"

datatype Block = Block (OpeningTag: Tag) (BlockValue: gostring) (Children: "Block list")

text \<open>The errors of the reader: \<open>EOF\<close> is io.EOF, the others are the messages of the source.\<close>

datatype xerror =
    EOF
  | ExpectedWordAfterColon
  | ExpectedAssignment
  | ExpectedQuotes
  | ExpectedClosingQuote
  | StrayCharsAtEOF
  | ExtraCharsBeforeTag
  | UnexpectedClosingTag
  | ExpectedGtAfterProlog
  | ExpectedGtAfterSlash
  | ExpectedClosingTag
  | ExpectedGt
  | TagsDontMatch

subsection \<open>Scanner\<close>

text \<open>
  Modelled from the spec: the scanner (\<open>readARune\<close>, \<open>peekARune\<close>, \<open>readNBytes\<close>,
  \<open>peekNBytes\<close>, \<open>readTill\<close>, \<open>ignoreWhiteSpace\<close>) and the constant \<open>WHITESPACE\<close> are
  not among the source files. A delimiter set is a 64-bit mask in which bit k stands for
  code point k; the source builds the masks as \<open>1<<'c'\<close> and tests them as
  \<open>(1 << uint(r)) & mask != 0\<close>, and a Go shift of a 64-bit value by 64 or more is 0.
\<close>

type_synonym delimset = "64 word"

definition bit_of :: "rune \<Rightarrow> delimset" where
  "bit_of r = push_bit r 1"

definition is_delim :: "delimset \<Rightarrow> rune \<Rightarrow> bool" where
  "is_delim d r = (bit_of r AND d \<noteq> 0)"

text \<open>Modelled from the spec: whitespace is the set {space, tab, carriage-return, line-feed}.\<close>

definition WHITESPACE :: delimset where
  "WHITESPACE = bit_of 9 OR bit_of 10 OR bit_of 13 OR bit_of 32"

text \<open>
  Modelled from the spec: reading one rune consumes it; at the end of the stream the Go
  reader returns the zero rune together with io.EOF.
\<close>

fun readARune :: "XMLReader \<Rightarrow> (rune \<times> xerror option) \<times> XMLReader" where
  "readARune [] = ((0, Some EOF), [])"
| "readARune (r # rs) = ((r, None), rs)"

fun peekARune :: "XMLReader \<Rightarrow> rune \<times> xerror option" where
  "peekARune [] = (0, Some EOF)"
| "peekARune (r # rs) = (r, None)"

text \<open>Modelled from the spec: n characters, or an end-of-stream failure when fewer are left.\<close>

definition peekNBytes :: "nat \<Rightarrow> XMLReader \<Rightarrow> xerror + gostring" where
  "peekNBytes n s = (if length s < n then Inl EOF else Inr (take n s))"

definition readNBytes :: "nat \<Rightarrow> XMLReader \<Rightarrow> (xerror + gostring) \<times> XMLReader" where
  "readNBytes n s = (if length s < n then (Inl EOF, []) else (Inr (take n s), drop n s))"

text \<open>
  Modelled from the spec: \<open>readTill\<close> consumes and returns every character up to, not
  including, the first one of the delimiter set, which stays unconsumed; when the stream
  ends first it fails with end-of-stream and still returns what it consumed.
\<close>

fun readTill :: "delimset \<Rightarrow> XMLReader \<Rightarrow> (gostring \<times> xerror option) \<times> XMLReader" where
  "readTill d [] = (([], Some EOF), [])"
| "readTill d (r # rs) =
     (if is_delim d r then (([], None), r # rs)
      else (case readTill d rs of ((w, e), s') \<Rightarrow> ((r # w, e), s')))"

text \<open>
  Modelled from the spec: \<open>ignoreWhiteSpace\<close> skips the whitespace the stream starts with;
  the callers in the source check its error, which is the end of the stream
  (\<open>return // possibly an eof error\<close> in \<open>readOpeningTag\<close>).
\<close>

fun ignoreWhiteSpace :: "XMLReader \<Rightarrow> xerror option \<times> XMLReader" where
  "ignoreWhiteSpace [] = (Some EOF, [])"
| "ignoreWhiteSpace (r # rs) =
     (if is_delim WHITESPACE r then ignoreWhiteSpace rs else (None, r # rs))"

subsection \<open>Tokenizer\<close>

text \<open>
  \<open>readColonPair\<close>: the word up to the delimiter, split at its first colon. The Go
  function returns \<open>(pair, colonFound, err)\<close>; its callers look at the pair only when
  \<open>err\<close> is nil.
\<close>

fun splitColon :: "gostring \<Rightarrow> gostring \<Rightarrow> (gostring \<times> gostring) option" where
  "splitColon acc [] = None"
| "splitColon acc (r # rs) =
     (if r = of_char CHR '':'' then Some (rev acc, rs) else splitColon (r # acc) rs)"

definition readColonPair ::
  "delimset \<Rightarrow> XMLReader \<Rightarrow> (xerror + (gostring \<times> gostring) \<times> bool) \<times> XMLReader" where
  "readColonPair delim s =
     (case readTill delim s of
        ((word, Some e), s') \<Rightarrow> (Inl e, s')
      | ((word, None), s') \<Rightarrow>
          (case splitColon [] word of
             Some (first, latter) \<Rightarrow>
               (if length latter = 0 then (Inl ExpectedWordAfterColon, s')
                else (Inr ((first, latter), True), s'))
           | None \<Rightarrow> (Inr ((word, []), False), s')))"

text \<open>
  \<open>readAttribute\<close>. The two assignments \<open>err = errors.New(...)\<close> after the tests for
  \<open>=\<close> and for the quote are overwritten by the \<open>err\<close> of the next call before anything
  reads them, so the model has no branch for them. The error of the second
  \<open>readARune\<close> is overwritten too, and that of the third is discarded.
\<close>

definition readAttribute :: "XMLReader \<Rightarrow> (xerror + Attribute) \<times> XMLReader" where
  "readAttribute s =
     (case readColonPair (WHITESPACE OR bit_of (of_char CHR ''='')) s of
        (Inl e, s1) \<Rightarrow> (Inl e, s1)
      | (Inr ((first, second), colonExists), s1) \<Rightarrow>
          (let attr = (if colonExists
                       then \<lparr>Name = second, SchemaName = first, Value = []\<rparr>
                       else \<lparr>Name = first, SchemaName = [], Value = []\<rparr>)
           in case ignoreWhiteSpace s1 of
                (Some e, s2) \<Rightarrow> (Inl e, s2)
              | (None, s2) \<Rightarrow>
                  (case readARune s2 of
                     ((nextRune, Some e), s3) \<Rightarrow> (Inl e, s3)
                   | ((nextRune, None), s3) \<Rightarrow>
                       (case readARune s3 of
                          ((firstQuote, _), s4) \<Rightarrow>
                            (case readTill (WHITESPACE OR bit_of firstQuote) s4 of
                               ((word, Some e), s5) \<Rightarrow> (Inl e, s5)
                             | ((word, None), s5) \<Rightarrow>
                                 (case readARune s5 of
                                    ((secondQuote, _), s6) \<Rightarrow>
                                      (if firstQuote \<noteq> secondQuote
                                       then (Inl ExpectedClosingQuote, s6)
                                       else (Inr (attr\<lparr>Value := word\<rparr>), s6))))))))"

subsection \<open>Opening and closing tags\<close>

text \<open>
  The results of \<open>readOpeningTag\<close> are \<open>(tag, isProlog, blockComplete, err)\<close>; \<open>readBlock\<close>
  reads \<open>isProlog\<close> before \<open>err\<close>, so all four are returned together.
\<close>

type_synonym openres = "Tag \<times> bool \<times> bool \<times> xerror option"

definition emptyTag :: Tag where
  "emptyTag = \<lparr>TagSchemaName = [], TagName = [], Attrs = []\<rparr>"

lemma readTill_length: "length (snd (readTill d s)) \<le> length s"
  by (induction s) (auto split: prod.splits)

lemma ignoreWhiteSpace_length: "length (snd (ignoreWhiteSpace s)) \<le> length s"
  by (induction s) auto

lemma readARune_length: "readARune s = ((r, None), s') \<Longrightarrow> length s' < length s"
  by (cases s) auto

lemma readColonPair_length: "length (snd (readColonPair d s)) \<le> length s"
  using readTill_length [of d s]
  by (auto simp: readColonPair_def split: prod.splits option.splits)

lemma readTill_None:
  "readTill d s = ((w, None), s') \<Longrightarrow>
     s = w @ s' \<and> (\<exists>r t. s' = r # t \<and> is_delim d r) \<and> (\<forall>c\<in>set w. \<not> is_delim d c)"
  by (induction s arbitrary: w) (auto split: if_splits prod.splits)

lemma readAttribute_Inr:
  assumes "readAttribute s = (Inr attr, s')"
  obtains first second colonExists s1 nextRune s3 firstQuote e s4 word where
    "readColonPair (WHITESPACE OR bit_of (of_char CHR ''='')) s = (Inr ((first, second), colonExists), s1)"
    "ignoreWhiteSpace s1 = (None, nextRune # s3)"
    "readARune s3 = ((firstQuote, e), s4)"
    "readTill (WHITESPACE OR bit_of firstQuote) s4 = ((word, None), firstQuote # s')"
    "attr = (if colonExists
             then \<lparr>Name = second, SchemaName = first, Value = word\<rparr>
             else \<lparr>Name = first, SchemaName = [], Value = word\<rparr>)"
proof -
  obtain p s1 where cp: "readColonPair (WHITESPACE OR bit_of (of_char CHR ''='')) s = (p, s1)"
    by (cases "readColonPair (WHITESPACE OR bit_of (of_char CHR ''='')) s")
  from assms cp obtain first second colonExists where p: "p = Inr ((first, second), colonExists)"
    by (cases p) (auto simp: readAttribute_def)
  obtain e2 s2 where ws: "ignoreWhiteSpace s1 = (e2, s2)" by (cases "ignoreWhiteSpace s1")
  from assms cp p ws have e2: "e2 = None"
    by (cases e2) (auto simp: readAttribute_def Let_def)
  from assms cp p ws e2 obtain nextRune s3 where s2: "s2 = nextRune # s3"
    by (cases s2) (auto simp: readAttribute_def Let_def)
  obtain firstQuote e s4 where q1: "readARune s3 = ((firstQuote, e), s4)"
    by (cases "readARune s3") auto
  obtain word e5 s5 where rt: "readTill (WHITESPACE OR bit_of firstQuote) s4 = ((word, e5), s5)"
    by (cases "readTill (WHITESPACE OR bit_of firstQuote) s4") auto
  from assms cp p ws e2 s2 q1 rt have e5: "e5 = None"
    by (cases e5) (auto simp: readAttribute_def Let_def)
  from rt e5 obtain r t where s5: "s5 = r # t"
    using readTill_None by blast
  from assms cp p ws e2 s2 q1 rt e5 s5 have "r = firstQuote \<and> t = s' \<and>
      attr = (if colonExists
              then \<lparr>Name = second, SchemaName = first, Value = word\<rparr>
              else \<lparr>Name = first, SchemaName = [], Value = word\<rparr>)"
    by (auto simp: readAttribute_def Let_def split: if_splits)
  with that [OF cp [unfolded p] ws [unfolded e2 s2] q1] rt e5 s5 show ?thesis
    by simp
qed

lemma readAttribute_length:
  assumes "readAttribute s = (Inr attr, s')"
  shows "length s' < length s"
proof -
  from assms obtain p s1 nextRune s3 firstQuote e s4 word where
    cp: "readColonPair (WHITESPACE OR bit_of (of_char CHR ''='')) s = (Inr p, s1)" and
    ws: "ignoreWhiteSpace s1 = (None, nextRune # s3)" and
    rr: "readARune s3 = ((firstQuote, e), s4)" and
    rt: "readTill (WHITESPACE OR bit_of firstQuote) s4 = ((word, None), firstQuote # s')"
    by (rule readAttribute_Inr)
  have "length s1 \<le> length s" using readColonPair_length [of _ s] cp by (metis snd_conv)
  moreover have "length (nextRune # s3) \<le> length s1"
    using ignoreWhiteSpace_length [of s1] ws by simp
  moreover have "length s4 \<le> length s3" using rr by (cases s3) auto
  moreover have "length (firstQuote # s') \<le> length s4"
    using readTill_length [of _ s4] rt by (metis snd_conv)
  ultimately show ?thesis by simp
qed


text \<open>
  The loop \<open>for !(nextRune == '>' || nextRune == '/')\<close> of \<open>readOpeningTag\<close>: \<open>Inl\<close> is a
  return from inside the loop, \<open>Inr\<close> the tag when the loop ends.
\<close>

function readAttrs :: "Tag \<Rightarrow> bool \<Rightarrow> rune \<Rightarrow> XMLReader \<Rightarrow> (openres + Tag) \<times> XMLReader" where
  "readAttrs tag isProlog nextRune s =
     (if nextRune = of_char CHR ''>'' \<or> nextRune = of_char CHR ''/'' then (Inr tag, s)
      else (case readAttribute s of
              (Inl e, s1) \<Rightarrow> (Inl (tag, isProlog, False, Some e), s1)
            | (Inr attr, s1) \<Rightarrow>
                (case ignoreWhiteSpace s1 of
                   (Some e, s2) \<Rightarrow>
                     (Inl (tag\<lparr>Attrs := Attrs tag @ [attr]\<rparr>, isProlog, False, Some e), s2)
                 | (None, s2) \<Rightarrow>
                     (case peekARune s2 of
                        (r, Some e) \<Rightarrow>
                          (Inl (tag\<lparr>Attrs := Attrs tag @ [attr]\<rparr>, isProlog, False, Some e), s2)
                      | (r, None) \<Rightarrow>
                          readAttrs (tag\<lparr>Attrs := Attrs tag @ [attr]\<rparr>) isProlog r s2))))"
  by pat_completeness auto
termination
proof (relation "measure (\<lambda>(tag, isProlog, nextRune, s). length s)")
  show "wf (measure (\<lambda>(tag, isProlog, nextRune, s). length s))" by simp
next
  fix tag :: Tag and isProlog :: bool and nextRune r :: rune and s s1 s2 :: XMLReader
    and x attr y
  assume "(x, s1) = readAttribute s" "x = Inr attr" "(y, s2) = ignoreWhiteSpace s1"
  then have "length s1 < length s" "length s2 \<le> length s1"
    using readAttribute_length [of s attr s1] ignoreWhiteSpace_length [of s1]
    by (simp_all, metis snd_conv)
  then show "((tag\<lparr>Attrs := Attrs tag @ [attr]\<rparr>, isProlog, r, s2), tag, isProlog, nextRune, s)
      \<in> measure (\<lambda>(tag, isProlog, nextRune, s). length s)"
    by simp
qed

text \<open>
  \<open>readOpeningTag\<close> from the qualified name on (\<open>readColonPair\<close> and what follows it);
  \<open>word\<close> is the function's variable of that name, read again where a tag without
  attributes ends. After the attributes, the test for \<open>>\<close> behind \<open>/\<close> assigns its
  error to an \<open>err\<close> declared inside the \<open>if\<close> block, and the \<open>return\<close> after the block
  returns the \<open>err\<close> of the function, which is nil there.
\<close>

definition readTagRest :: "gostring \<Rightarrow> bool \<Rightarrow> XMLReader \<Rightarrow> openres \<times> XMLReader" where
  "readTagRest word isProlog s =
     (case readColonPair (bit_of (of_char CHR ''>'') OR WHITESPACE OR bit_of (of_char CHR ''/'')) s of
        (Inl e, s1) \<Rightarrow> ((emptyTag, isProlog, False, Some e), s1)
      | (Inr ((first, second), colonExist), s1) \<Rightarrow>
          (let tag = (if colonExist
                      then \<lparr>TagSchemaName = first, TagName = second, Attrs = []\<rparr>
                      else \<lparr>TagSchemaName = [], TagName = first, Attrs = []\<rparr>);
               s2 = (if is_delim WHITESPACE (fst (peekARune s1))
                     then snd (ignoreWhiteSpace s1) else s1);
               delim = fst (peekARune s2)
           in if delim = of_char CHR ''>'' then ((tag, isProlog, False, None), snd (readARune s2))
              else if delim = of_char CHR ''/'' then
                (case readARune (snd (readARune s2)) of
                   ((nextRune, Some e), s4) \<Rightarrow> ((tag, isProlog, True, Some e), s4)
                 | ((nextRune, None), s4) \<Rightarrow>
                     ((tag, isProlog, True,
                       if nextRune \<noteq> of_char CHR ''>'' then Some ExpectedGtAfterSlash else None), s4))
              else
                (case ignoreWhiteSpace s2 of
                   (Some e, s3) \<Rightarrow> ((tag, isProlog, False, Some e), s3)
                 | (None, s3) \<Rightarrow>
                     (case peekARune s3 of
                        (nextRune, Some e) \<Rightarrow> ((tag, isProlog, False, Some e), s3)
                      | (nextRune, None) \<Rightarrow>
                          if nextRune = of_char CHR ''>''
                          then ((tag\<lparr>TagName := word\<rparr>, isProlog, False, None), snd (readARune s3))
                          else
                            (case readAttrs tag isProlog nextRune s3 of
                               (Inl res, s4) \<Rightarrow> (res, s4)
                             | (Inr tag', s4) \<Rightarrow>
                                 (case readARune s4 of
                                    ((lastRune, _), s5) \<Rightarrow>
                                      if lastRune = of_char CHR ''/'' then
                                        (case readARune s5 of
                                           ((c, Some e), s6) \<Rightarrow> ((tag', isProlog, True, Some e), s6)
                                         | ((c, None), s6) \<Rightarrow> ((tag', isProlog, True, None), s6))
                                      else ((tag', isProlog, False, None), s5)))))))"

text \<open>
  A prolog \<open><? ... ?>\<close>. The error "expected a > char after ?" is assigned to an \<open>err\<close>
  declared inside the \<open>if\<close> block, so it is lost when the block ends and the function
  goes on to read a tag name, with \<open>isProlog\<close> set.
\<close>

definition readProlog :: "gostring \<Rightarrow> XMLReader \<Rightarrow> openres \<times> XMLReader" where
  "readProlog word s =
     (case readTill (bit_of (of_char CHR ''?'')) (snd (readARune s)) of
        ((w, Some e), s1) \<Rightarrow> ((emptyTag, True, False, Some e), s1)
      | ((w, None), s1) \<Rightarrow>
          (case ignoreWhiteSpace (snd (readARune s1)) of
             (Some e, s2) \<Rightarrow> ((emptyTag, True, False, Some e), s2)
           | (None, s2) \<Rightarrow>
               (case peekARune s2 of
                  (nextRune, Some e) \<Rightarrow> ((emptyTag, True, False, Some e), s2)
                | (nextRune, None) \<Rightarrow>
                    if nextRune = of_char CHR ''>''
                    then ((emptyTag, True, False, None), snd (readARune s2))
                    else readTagRest word True s2)))"

definition readOpeningTag :: "XMLReader \<Rightarrow> openres \<times> XMLReader" where
  "readOpeningTag s =
     (case ignoreWhiteSpace s of
        (Some e, s1) \<Rightarrow> ((emptyTag, False, False, Some e), s1)
      | (None, s1) \<Rightarrow>
          (case readTill (bit_of (of_char CHR ''<'')) s1 of
             ((word, err), s2) \<Rightarrow>
               if err = Some EOF then
                 (if length word > 0 then ((emptyTag, False, False, Some StrayCharsAtEOF), s2)
                  else ((emptyTag, False, False, Some EOF), s2))
               else if length word \<noteq> 0 then ((emptyTag, False, False, Some ExtraCharsBeforeTag), s2)
               else
                 (let s3 = snd (ignoreWhiteSpace (snd (readARune s2)))
                  in case peekARune s3 of
                       (nextRune, Some e) \<Rightarrow> ((emptyTag, False, False, Some e), s3)
                     | (nextRune, None) \<Rightarrow>
                         if nextRune = of_char CHR ''/''
                         then ((emptyTag, False, False, Some UnexpectedClosingTag), s3)
                         else if nextRune = of_char CHR ''?'' then readProlog word s3
                         else readTagRest word False s3)))"

definition readClosingTag :: "XMLReader \<Rightarrow> (xerror + Tag) \<times> XMLReader" where
  "readClosingTag s =
     (case readNBytes 2 s of
        (Inl e, s1) \<Rightarrow> (Inl e, s1)
      | (Inr next2Bytes, s1) \<Rightarrow>
          if next2Bytes \<noteq> runes ''</'' then (Inl ExpectedClosingTag, s1)
          else
            (case readColonPair (bit_of (of_char CHR ''>'') OR WHITESPACE) s1 of
               (Inl e, s2) \<Rightarrow> (Inl e, s2)
             | (Inr ((first, second), colonExists), s2) \<Rightarrow>
                 (let closingTag = (if colonExists
                                    then \<lparr>TagSchemaName = first, TagName = second, Attrs = []\<rparr>
                                    else \<lparr>TagSchemaName = [], TagName = first, Attrs = []\<rparr>)
                  in case readARune (snd (ignoreWhiteSpace s2)) of
                       ((nextChar, Some e), s4) \<Rightarrow> (Inl e, s4)
                     | ((nextChar, None), s4) \<Rightarrow>
                         if nextChar \<noteq> of_char CHR ''>'' then (Inl ExpectedGt, s4)
                         else (Inr closingTag, s4))))"

subsection \<open>Tree builder\<close>

text \<open>The end of \<open>readBlock\<close>: the closing tag, which must match the opening tag.\<close>

definition closeBlock ::
  "Tag \<Rightarrow> gostring \<Rightarrow> Block list \<Rightarrow> XMLReader \<Rightarrow> (xerror + Block) \<times> XMLReader" where
  "closeBlock openingTag val children s =
     (case readClosingTag s of
        (Inl e, s1) \<Rightarrow> (Inl e, s1)
      | (Inr closingTag, s1) \<Rightarrow>
          if TagName openingTag \<noteq> TagName closingTag
             \<or> TagSchemaName openingTag \<noteq> TagSchemaName closingTag
          then (Inl TagsDontMatch, s1)
          else (Inr (Block openingTag val children), s1))"

text \<open>
  \<open>readBlock\<close> calls itself after a prolog and for every child. The first argument
  bounds the number of nested calls; \<open>None\<close> says that the bound was reached.
  \<open>readChildren\<close> is the loop \<open>for string(nextTwoBytes) != "</"\<close>. On an error the Go
  function returns the block built so far beside the error; \<open>Parse\<close> drops it, and so
  does the model.
\<close>

fun readBlock :: "nat \<Rightarrow> XMLReader \<Rightarrow> ((xerror + Block) \<times> XMLReader) option"
  and readChildren ::
    "nat \<Rightarrow> Block list \<Rightarrow> gostring \<Rightarrow> XMLReader \<Rightarrow> ((xerror + Block list) \<times> XMLReader) option"
where
  "readBlock 0 s = None"
| "readBlock (Suc n) s =
     (case readOpeningTag s of
        ((openingTag, isProlog, blockComplete, err), s1) \<Rightarrow>
          if isProlog then readBlock n s1
          else
            (case err of
               Some e \<Rightarrow> Some (Inl e, s1)
             | None \<Rightarrow>
                 if blockComplete then Some (Inr (Block openingTag [] []), s1)
                 else
                   (let s2 = snd (ignoreWhiteSpace s1)
                    in case peekARune s2 of
                         (nextRune, Some e) \<Rightarrow> Some (Inl e, s2)
                       | (nextRune, None) \<Rightarrow>
                           if nextRune \<noteq> of_char CHR ''<'' then
                             (case readTill (bit_of (of_char CHR ''<'')) s2 of
                                ((word, Some e), s3) \<Rightarrow> Some (Inl e, s3)
                              | ((word, None), s3) \<Rightarrow> Some (closeBlock openingTag word [] s3))
                           else
                             (case peekNBytes 2 s2 of
                                Inl e \<Rightarrow> Some (Inl e, s2)
                              | Inr nextTwoBytes \<Rightarrow>
                                  (case readChildren n [] nextTwoBytes s2 of
                                     None \<Rightarrow> None
                                   | Some (Inl e, s3) \<Rightarrow> Some (Inl e, s3)
                                   | Some (Inr children, s3) \<Rightarrow>
                                       Some (closeBlock openingTag [] children s3))))))"
| "readChildren 0 children nextTwoBytes s = None"
| "readChildren (Suc n) children nextTwoBytes s =
     (if nextTwoBytes = runes ''</'' then Some (Inr children, s)
      else
        (case readBlock n s of
           None \<Rightarrow> None
         | Some (Inl e, s1) \<Rightarrow> Some (Inl e, s1)
         | Some (Inr childBlock, s1) \<Rightarrow>
             (let s2 = snd (ignoreWhiteSpace s1)
              in case peekNBytes 2 s2 of
                   Inl e \<Rightarrow> Some (Inl e, s2)
                 | Inr b \<Rightarrow> readChildren n (children @ [childBlock]) b s2)))"

text \<open>\<open>Read\<close>: one call of \<open>readBlock\<close> (closing the file is not modelled).\<close>

definition Read :: "nat \<Rightarrow> XMLReader \<Rightarrow> ((xerror + Block) \<times> XMLReader) option" where
  "Read n s = readBlock n s"

section \<open>The RDF parser (package parser)\<close>

subsection \<open>Data model\<close>

text \<open>
  Modelled from the spec: the type \<open>Node\<close> is declared in a file that is not among the
  sources. The source builds nodes as \<open>Node{IRI, s}\<close>, \<open>Node{NodeType: IRI, ID: s}\<close> and
  \<open>Node{LITERAL, s}\<close>; the third kind of node is the blank node of the spec.
\<close>

datatype NODETYPE = IRI | BLANK | LITERAL

record Node =
  NodeType :: NODETYPE
  ID :: gostring

text \<open>A triple holds pointers to its three nodes; the model holds the nodes.\<close>

record Triple =
  Subject :: Node
  Predicate :: Node
  Object :: Node

datatype perror =
    OpenError
  | ReaderError xerror
  | SchemaURIInvalid
  | UndefinedSchemaName gostring

text \<open>
  What the parser uses and the sources do not hold is a parameter of the model: the
  package \<open>uri\<close> (a type \<open>'u\<close> of URI references, \<open>NewURIRef\<close> that fails on a malformed
  text, \<open>AddFragment\<close>, \<open>String\<close>, and the zero value \<open>uri.URIRef{}\<close>), the text that
  \<open>fmt\<close> prints for a node under \<open>%v\<close>, and the name that the blank node getter gives to
  the blank node of a number.
\<close>

record 'u ext =
  NewURIRef :: "gostring \<Rightarrow> 'u option"
  AddFragment :: "'u \<Rightarrow> gostring \<Rightarrow> 'u"
  URIString :: "'u \<Rightarrow> gostring"
  zeroURI :: 'u
  NodeString :: "Node \<Rightarrow> gostring"
  BlankID :: "int \<Rightarrow> gostring"

definition RDFNS :: gostring where
  "RDFNS = runes ''http://www.w3.org/1999/02/22-rdf-syntax-ns#''"

text \<open>
  Modelled from the spec: the blank node getter is a counter (the source creates it as
  \<open>BlankNodeGetter{-1}\<close>) and a mapping from the ids given by the caller to the blank
  nodes minted for them. \<open>Get\<close> mints the blank node of the next number; \<open>GetFromId\<close>
  yields the node minted for the id before, or mints one and keeps it.
\<close>

record BlankNodeGetter =
  lastid :: int
  byId :: "gostring \<rightharpoonup> Node"

definition Get :: "'u ext \<Rightarrow> BlankNodeGetter \<Rightarrow> Node \<times> BlankNodeGetter" where
  "Get U g = (\<lparr>NodeType = BLANK, ID = BlankID U (lastid g + 1)\<rparr>, g\<lparr>lastid := lastid g + 1\<rparr>)"

definition GetFromId :: "'u ext \<Rightarrow> BlankNodeGetter \<Rightarrow> gostring \<Rightarrow> Node \<times> BlankNodeGetter" where
  "GetFromId U g i =
     (case byId g i of
        Some n \<Rightarrow> (n, g)
      | None \<Rightarrow> (case Get U g of (n, g') \<Rightarrow> (n, g'\<lparr>byId := (byId g')(i \<mapsto> n)\<rparr>)))"

text \<open>
  The parser. \<open>wg\<close> is the counter of the wait group; \<open>writeLock\<close> has no field, since
  the model runs one \<open>appendTriple\<close> at a time.
\<close>

record 'u Parser =
  Triples :: "gostring \<rightharpoonup> Triple"
  schemaDefinition :: "gostring \<rightharpoonup> 'u"
  blankNodeGetter :: BlankNodeGetter
  rdfNS :: 'u
  wg :: int

subsection \<open>Sequential functions\<close>

definition Hash :: "'u ext \<Rightarrow> Triple \<Rightarrow> gostring" where
  "Hash U triple =
     runes ''{'' @ NodeString U (Subject triple) @ runes ''; '' @ NodeString U (Predicate triple)
       @ runes ''; '' @ NodeString U (Object triple) @ runes ''}''"

fun headerLoop :: "'u ext \<Rightarrow> (gostring \<rightharpoonup> 'u) \<Rightarrow> Attribute list \<Rightarrow> perror + (gostring \<rightharpoonup> 'u)" where
  "headerLoop U namespaceURI [] = Inr namespaceURI"
| "headerLoop U namespaceURI (attr # rest) =
     (if SchemaName attr = runes ''xmlns'' then
        (case NewURIRef U (Value attr) of
           None \<Rightarrow> Inl SchemaURIInvalid
         | Some uriref \<Rightarrow> headerLoop U (namespaceURI(Name attr \<mapsto> uriref)) rest)
      else headerLoop U namespaceURI rest)"

definition parseHeaderBlock :: "'u ext \<Rightarrow> Block \<Rightarrow> perror + (gostring \<rightharpoonup> 'u)" where
  "parseHeaderBlock U rootBlock = headerLoop U Map.empty (Attrs (OpeningTag rootBlock))"

definition uriFromPair :: "'u ext \<Rightarrow> 'u Parser \<Rightarrow> gostring \<Rightarrow> gostring \<Rightarrow> perror + 'u" where
  "uriFromPair U parser schemaName name =
     (case schemaDefinition parser schemaName of
        None \<Rightarrow> Inl (UndefinedSchemaName schemaName)
      | Some baseURI \<Rightarrow> Inr (AddFragment U baseURI name))"

definition appendTriple :: "'u ext \<Rightarrow> Triple \<Rightarrow> 'u Parser \<Rightarrow> 'u Parser" where
  "appendTriple U triple parser = parser\<lparr>Triples := (Triples parser)(Hash U triple \<mapsto> triple)\<rparr>"

text \<open>
  The loop of \<open>getRDFAttributeIndex\<close>, from the attribute of index \<open>i\<close> on. The \<open>err\<close>
  that \<open>uriFromPair\<close> returns is a variable of the loop body: on an error the loop is
  left with \<open>break\<close>, the index is still -1 and the \<open>err\<close> that the function returns was
  never assigned.
\<close>

fun attrIndexLoop :: "'u ext \<Rightarrow> 'u Parser \<Rightarrow> gostring \<Rightarrow> int \<Rightarrow> Attribute list \<Rightarrow> int" where
  "attrIndexLoop U parser attrName i [] = -1"
| "attrIndexLoop U parser attrName i (attr # rest) =
     (case uriFromPair U parser (SchemaName attr) (Name attr) of
        Inl e \<Rightarrow> -1
      | Inr attrUri \<Rightarrow>
          if attrUri = AddFragment U (rdfNS parser) attrName then i
          else attrIndexLoop U parser attrName (i + 1) rest)"

definition getRDFAttributeIndex ::
  "'u ext \<Rightarrow> 'u Parser \<Rightarrow> Tag \<Rightarrow> gostring \<Rightarrow> int \<times> perror option" where
  "getRDFAttributeIndex U parser tag attrName =
     (attrIndexLoop U parser attrName 0 (Attrs tag), None)"

text \<open>
  The test of that loop, as a predicate on attributes: the attribute resolves, and to the
  name \<open>attrName\<close> of the RDF namespace.
\<close>

definition isRDFAttribute :: "'u ext \<Rightarrow> 'u Parser \<Rightarrow> gostring \<Rightarrow> Attribute \<Rightarrow> bool" where
  "isRDFAttribute U p attrName attr =
     (uriFromPair U p (SchemaName attr) (Name attr) = Inr (AddFragment U (rdfNS p) attrName))"

definition nodeFromTag :: "'u ext \<Rightarrow> 'u Parser \<Rightarrow> Tag \<Rightarrow> (perror + Node) \<times> 'u Parser" where
  "nodeFromTag U parser openingTag =
     (case getRDFAttributeIndex U parser openingTag (runes ''about'') of
        (index, Some e) \<Rightarrow> (Inl e, parser)
      | (index, None) \<Rightarrow>
          if index = -1 then
            (case getRDFAttributeIndex U parser openingTag (runes ''nodeID'') of
               (rdfNodeIDIndex, Some e) \<Rightarrow> (Inl e, parser)
             | (rdfNodeIDIndex, None) \<Rightarrow>
                 if rdfNodeIDIndex = -1 then
                   (case Get U (blankNodeGetter parser) of
                      (currentNode, g) \<Rightarrow> (Inr currentNode, parser\<lparr>blankNodeGetter := g\<rparr>))
                 else
                   (case GetFromId U (blankNodeGetter parser)
                           (Value (Attrs openingTag ! nat rdfNodeIDIndex)) of
                      (currentNode, g) \<Rightarrow> (Inr currentNode, parser\<lparr>blankNodeGetter := g\<rparr>)))
          else (Inr \<lparr>NodeType = IRI, ID = Value (Attrs openingTag ! nat index)\<rparr>, parser))"

text \<open>\<open>New\<close>; the error of \<open>NewURIRef\<close> is dropped, the zero value stands for its result then.\<close>

definition New :: "'u ext \<Rightarrow> 'u Parser" where
  "New U =
     \<lparr>Triples = Map.empty,
      schemaDefinition = [[] \<mapsto> zeroURI U],
      blankNodeGetter = \<lparr>lastid = -1, byId = Map.empty\<rparr>,
      rdfNS = (case NewURIRef U RDFNS of Some u \<Rightarrow> u | None \<Rightarrow> zeroURI U),
      wg = 0\<rparr>"

subsection \<open>One extraction unit\<close>

text \<open>
  A call of \<open>parseBlock\<close> is one goroutine. The model runs it from its first statement
  to its return without another goroutine in between. Its state is the parser, the
  variable that \<open>errp\<close> points to, and the goroutines it has started with \<open>go\<close>.
  A loop body either goes on to the next iteration or returns from \<open>parseBlock\<close>.
\<close>

record 'u unitstate =
  uparser :: "'u Parser"
  errp :: "perror option"
  spawned :: "(Block \<times> Node) list"

datatype 'a flow = Continue 'a | Return 'a

definition errOf :: "perror + 'a \<Rightarrow> perror option" where
  "errOf r = (case r of Inl e \<Rightarrow> Some e | Inr x \<Rightarrow> None)"

text \<open>The loop over the children of a predicate block (\<open>objectBlock\<close>).\<close>

fun parseObjects ::
  "'u ext \<Rightarrow> Node \<Rightarrow> Node \<Rightarrow> Block list \<Rightarrow> 'u unitstate \<Rightarrow> 'u unitstate flow" where
  "parseObjects U node predicateNode [] st = Continue st"
| "parseObjects U node predicateNode (objectBlock # rest) st =
     (case nodeFromTag U (uparser st) (OpeningTag objectBlock) of
        (newErr, p1) \<Rightarrow>
          (case newErr of
             Inl e \<Rightarrow> Return (st\<lparr>uparser := p1, errp := Some e\<rparr>)
           | Inr objectNode \<Rightarrow>
               (let p2 = appendTriple U
                           \<lparr>Subject = node, Predicate = predicateNode, Object = objectNode\<rparr> p1;
                    st2 = st\<lparr>uparser := p2\<lparr>wg := wg p2 + 1\<rparr>, errp := None,
                             spawned := spawned st @ [(objectBlock, objectNode)]\<rparr>
                in if errp st2 \<noteq> None then Return st2
                   else parseObjects U node predicateNode rest st2)))"

text \<open>The body of the loop over the children of the current block (\<open>predicateBlock\<close>).\<close>

definition parsePredicate ::
  "'u ext \<Rightarrow> Block \<Rightarrow> Node \<Rightarrow> Block \<Rightarrow> 'u unitstate \<Rightarrow> 'u unitstate flow" where
  "parsePredicate U currBlock node predicateBlock st =
     (case nodeFromTag U (uparser st) (OpeningTag predicateBlock) of
        (newErr, p1) \<Rightarrow>
          (case newErr of
             Inl e \<Rightarrow> Return (st\<lparr>uparser := p1, errp := Some e\<rparr>)
           | Inr predicateNode \<Rightarrow>
               (case uriFromPair U p1 (TagSchemaName (OpeningTag currBlock))
                       (TagName (OpeningTag currBlock)) of
                  Inl e \<Rightarrow> Return (st\<lparr>uparser := p1, errp := Some e\<rparr>)
                | Inr openingTagUri \<Rightarrow>
                    (let predicateURI = AddFragment U (rdfNS p1) (runes ''type'');
                         p2 = appendTriple U
                                \<lparr>Subject = node,
                                 Predicate = \<lparr>NodeType = IRI, ID = URIString U predicateURI\<rparr>,
                                 Object = \<lparr>NodeType = IRI, ID = URIString U openingTagUri\<rparr>\<rparr> p1;
                         st2 = st\<lparr>uparser := p2, errp := None\<rparr>
                     in if errp st2 \<noteq> None then Return st2
                        else if length (Children predicateBlock) = 0 then
                          (case getRDFAttributeIndex U p2 (OpeningTag predicateBlock)
                                  (runes ''resource'') of
                             (resIdx, Some e) \<Rightarrow> Return (st2\<lparr>errp := Some e\<rparr>)
                           | (resIdx, None) \<Rightarrow>
                               (let objectString =
                                      (if resIdx \<noteq> -1
                                       then Value (Attrs (OpeningTag predicateBlock) ! nat resIdx)
                                       else BlockValue predicateBlock);
                                    p3 = appendTriple U
                                           \<lparr>Subject = node, Predicate = predicateNode,
                                            Object = \<lparr>NodeType = LITERAL, ID = objectString\<rparr>\<rparr> p2
                                in parseObjects U node predicateNode (Children predicateBlock)
                                     (st2\<lparr>uparser := p3\<rparr>)))
                        else parseObjects U node predicateNode (Children predicateBlock) st2))))"

fun parsePredicates ::
  "'u ext \<Rightarrow> Block \<Rightarrow> Node \<Rightarrow> Block list \<Rightarrow> 'u unitstate \<Rightarrow> 'u unitstate flow" where
  "parsePredicates U currBlock node [] st = Continue st"
| "parsePredicates U currBlock node (predicateBlock # rest) st =
     (case parsePredicate U currBlock node predicateBlock st of
        Return st' \<Rightarrow> Return st'
      | Continue st' \<Rightarrow> parsePredicates U currBlock node rest st')"

text \<open>\<open>parseBlock\<close>: \<open>wg.Done()\<close> is its last statement, after the loop.\<close>

definition parseBlock :: "'u ext \<Rightarrow> Block \<Rightarrow> Node \<Rightarrow> 'u unitstate \<Rightarrow> 'u unitstate" where
  "parseBlock U currBlock node st =
     (case parsePredicates U currBlock node (Children currBlock) st of
        Return st' \<Rightarrow> st'
      | Continue st' \<Rightarrow> st'\<lparr>uparser := (uparser st')\<lparr>wg := wg (uparser st') - 1\<rparr>\<rparr>)"

subsection \<open>Parse and its goroutines\<close>

text \<open>
  \<open>Parse\<close> starts one goroutine for every child of the root, each with the address of
  the \<open>err\<close> variable of its loop iteration, and a goroutine starts further ones with the
  address it was given. A configuration holds the parser, the \<open>err\<close> variables by address
  (\<open>slots\<close>; \<open>nslots\<close> is the next free address), the goroutines started and not yet run
  (block, node and address of \<open>errp\<close>), and the place \<open>Parse\<close> has reached:
  the head of its loop with the children left, the test \<open>if err != nil\<close> after \<open>go\<close>,
  \<open>wg.Wait()\<close>, or its return.
\<close>

datatype mainpc =
    AtLoop "Block list"
  | AtCheck nat "Block list"
  | AtWait
  | Finished "perror option"

record 'u config =
  parser :: "'u Parser"
  slots :: "nat \<Rightarrow> perror option"
  nslots :: nat
  units :: "(Block \<times> Node \<times> nat) list"
  main :: mainpc

text \<open>
  One step of \<open>Parse\<close> itself: an iteration of the loop up to \<open>go\<close>, the test of \<open>err\<close>
  that follows, or \<open>wg.Wait()\<close>, which returns once the counter is zero.
\<close>

definition stepMain :: "'u ext \<Rightarrow> 'u config \<Rightarrow> 'u config" where
  "stepMain U c =
     (case main c of
        AtLoop [] \<Rightarrow> c\<lparr>main := AtWait\<rparr>
      | AtLoop (child # rest) \<Rightarrow>
          (let p1 = (parser c)\<lparr>wg := wg (parser c) + 1\<rparr>
           in case nodeFromTag U p1 (OpeningTag child) of
                (Inl e, p2) \<Rightarrow> c\<lparr>parser := p2, main := Finished (Some e)\<rparr>
              | (Inr childNode, p2) \<Rightarrow>
                  c\<lparr>parser := p2,
                    slots := (slots c)(nslots c := None),
                    nslots := nslots c + 1,
                    units := units c @ [(child, childNode, nslots c)],
                    main := AtCheck (nslots c) rest\<rparr>)
      | AtCheck k rest \<Rightarrow>
          (case slots c k of
             Some e \<Rightarrow> c\<lparr>main := Finished (Some e)\<rparr>
           | None \<Rightarrow> c\<lparr>main := AtLoop rest\<rparr>)
      | AtWait \<Rightarrow> (if wg (parser c) = 0 then c\<lparr>main := Finished None\<rparr> else c)
      | Finished r \<Rightarrow> c)"

text \<open>One started goroutine runs: the j-th of those not yet run.\<close>

definition stepUnit :: "'u ext \<Rightarrow> nat \<Rightarrow> 'u config \<Rightarrow> 'u config" where
  "stepUnit U j c =
     (if j < length (units c) then
        (case units c ! j of
           (currBlock, node, k) \<Rightarrow>
             (let st = parseBlock U currBlock node
                         \<lparr>uparser = parser c, errp = slots c k, spawned = []\<rparr>
              in c\<lparr>parser := uparser st,
                   slots := (slots c)(k := errp st),
                   units := take j (units c) @ drop (Suc j) (units c)
                              @ map (\<lambda>(b, n). (b, n, k)) (spawned st)\<rparr>))
      else c)"

text \<open>
  A schedule says who runs next, \<open>Parse\<close> or one of the started goroutines. \<open>run\<close> is
  the configuration a schedule leads to.
\<close>

datatype action = Main | Unit nat

fun step :: "'u ext \<Rightarrow> action \<Rightarrow> 'u config \<Rightarrow> 'u config" where
  "step U Main c = stepMain U c"
| "step U (Unit j) c = stepUnit U j c"

fun run :: "'u ext \<Rightarrow> action list \<Rightarrow> 'u config \<Rightarrow> 'u config" where
  "run U [] c = c"
| "run U (a # sched) c = run U sched (step U a c)"

text \<open>
  \<open>Parse\<close> up to its loop. \<open>file\<close> is the text of the file at \<open>filePath\<close>, \<open>None\<close> when
  it cannot be opened; \<open>n\<close> bounds the nesting of \<open>readBlock\<close>, and the result is \<open>None\<close>
  when the bound is reached.
\<close>

definition startConfig :: "'u Parser \<Rightarrow> mainpc \<Rightarrow> 'u config" where
  "startConfig p pc = \<lparr>parser = p, slots = (\<lambda>k. None), nslots = 0, units = [], main = pc\<rparr>"

definition ParseStart :: "'u ext \<Rightarrow> nat \<Rightarrow> gostring option \<Rightarrow> 'u Parser \<Rightarrow> 'u config option" where
  "ParseStart U n file p =
     (case file of
        None \<Rightarrow> Some (startConfig p (Finished (Some OpenError)))
      | Some text \<Rightarrow>
          (case Read n text of
             None \<Rightarrow> None
           | Some (Inl e, s) \<Rightarrow> Some (startConfig p (Finished (Some (ReaderError e))))
           | Some (Inr rootBlock, s) \<Rightarrow>
               (case parseHeaderBlock U rootBlock of
                  Inl e \<Rightarrow> Some (startConfig p (Finished (Some e)))
                | Inr sd \<Rightarrow>
                    Some (startConfig (p\<lparr>schemaDefinition := sd\<rparr>)
                            (AtLoop (Children rootBlock))))))"

definition Parse ::
  "'u ext \<Rightarrow> nat \<Rightarrow> gostring option \<Rightarrow> 'u Parser \<Rightarrow> action list \<Rightarrow> 'u config option" where
  "Parse U n file p sched = map_option (run U sched) (ParseStart U n file p)"

text \<open>
  Modelled from the spec: an instance of the parameters for running the model, in which a
  URI reference is its text, the empty text is malformed, a fragment is appended to the
  base, a node prints as its kind and id, and the blank node of number i is called N
  followed by i strokes.
\<close>

definition kindName :: "NODETYPE \<Rightarrow> gostring" where
  "kindName t = (case t of IRI \<Rightarrow> runes ''IRI'' | BLANK \<Rightarrow> runes ''BLANK'' | LITERAL \<Rightarrow> runes ''LITERAL'')"

definition textExt :: "gostring ext" where
  "textExt =
     \<lparr>NewURIRef = (\<lambda>s. if s = [] then None else Some s),
      AddFragment = (\<lambda>b f. b @ f),
      URIString = (\<lambda>u. u),
      zeroURI = [],
      NodeString = (\<lambda>n. runes ''('' @ kindName (NodeType n) @ runes '', '' @ ID n @ runes '')''),
      BlankID = (\<lambda>i. of_char CHR ''N'' # replicate (nat i) (of_char CHR ''I''))\<rparr>"

subsection \<open>Inputs of the examples\<close>

text \<open>
  The parser after the namespaces of a root element that declares the prefix \<open>rdf\<close>, and
  no other, for the RDF namespace; and an opening tag
  \<open><rdf:Description foo:x="1" rdf:about="u">\<close>, whose first attribute has a prefix that
  is not declared.
\<close>

definition rdfParser :: "'u ext \<Rightarrow> 'u Parser" where
  "rdfParser U = (New U)\<lparr>schemaDefinition := [runes ''rdf'' \<mapsto> rdfNS (New U)]\<rparr>"

definition aboutAfterUndeclared :: Tag where
  "aboutAfterUndeclared =
     \<lparr>TagSchemaName = runes ''rdf'', TagName = runes ''Description'',
      Attrs = [\<lparr>Name = runes ''x'', SchemaName = runes ''foo'', Value = runes ''1''\<rparr>,
               \<lparr>Name = runes ''about'', SchemaName = runes ''rdf'', Value = runes ''u''\<rparr>]\<rparr>"

text \<open>
  A parser with the prefixes \<open>rdf\<close> and \<open>p\<close> declared, a unit that starts on it, and
  blocks: a subject \<open><p:T rdf:about="s">\<close>, the same with the prefix \<open>x\<close>, which is
  not declared, and predicates without children, \<open><p:m rdf:resource="R"/>\<close> and
  \<open><p:m q:a="1" rdf:resource="R"/>\<close>.
\<close>

definition exampleParser :: "gostring Parser" where
  "exampleParser =
     (New textExt)\<lparr>schemaDefinition := [runes ''rdf'' \<mapsto> RDFNS, runes ''p'' \<mapsto> runes ''u/'']\<rparr>"

definition exampleState :: "gostring unitstate" where
  "exampleState = \<lparr>uparser = exampleParser, errp = None, spawned = []\<rparr>"

definition subjectNode :: Node where
  "subjectNode = \<lparr>NodeType = IRI, ID = runes ''s''\<rparr>"

definition subjectDeclared :: Block where
  "subjectDeclared =
     Block \<lparr>TagSchemaName = runes ''p'', TagName = runes ''T'',
            Attrs = [\<lparr>Name = runes ''about'', SchemaName = runes ''rdf'', Value = runes ''s''\<rparr>]\<rparr> [] []"

definition subjectUndeclared :: Block where
  "subjectUndeclared =
     Block \<lparr>TagSchemaName = runes ''x'', TagName = runes ''T'',
            Attrs = [\<lparr>Name = runes ''about'', SchemaName = runes ''rdf'', Value = runes ''s''\<rparr>]\<rparr> [] []"

definition predicateResource :: Block where
  "predicateResource =
     Block \<lparr>TagSchemaName = runes ''p'', TagName = runes ''m'',
            Attrs = [\<lparr>Name = runes ''resource'', SchemaName = runes ''rdf'', Value = runes ''R''\<rparr>]\<rparr>
       [] []"

definition predicateResourceAfterUndeclared :: Block where
  "predicateResourceAfterUndeclared =
     Block \<lparr>TagSchemaName = runes ''p'', TagName = runes ''m'',
            Attrs = [\<lparr>Name = runes ''a'', SchemaName = runes ''q'', Value = runes ''1''\<rparr>,
                     \<lparr>Name = runes ''resource'', SchemaName = runes ''rdf'', Value = runes ''R''\<rparr>]\<rparr>
       [] []"

text \<open>A document whose root declares a default namespace.\<close>

definition defaultNamespaceDoc :: gostring where
  \<open>defaultNamespaceDoc = runes ''<r xmlns="u"></r>''\<close>

text \<open>
  A document without namespace declarations, in which the subject \<open>x:T\<close> has a child;
  the block of \<open>x:T\<close>; and the configuration in which the loop of \<open>Parse\<close> starts on it.
\<close>

definition undeclaredPrefixDoc :: gostring where
  "undeclaredPrefixDoc = runes ''<r><x:T><n>v</n></x:T></r>''"

definition undeclaredSubject :: Block where
  "undeclaredSubject =
     Block \<lparr>TagSchemaName = runes ''x'', TagName = runes ''T'', Attrs = []\<rparr> []
       [Block \<lparr>TagSchemaName = [], TagName = runes ''n'', Attrs = []\<rparr> (runes ''v'') []]"


definition undeclaredStart :: "'u ext \<Rightarrow> 'u config" where
  "undeclaredStart U =
     startConfig ((New U)\<lparr>schemaDefinition := Map.empty\<rparr>) (AtLoop [undeclaredSubject])"

section \<open>Properties of the reader\<close>

lemma is_delim_bit: "is_delim d r \<longleftrightarrow> bit d r"
  by (simp add: is_delim_def bit_of_def push_bit_eq_mult and_exp_eq_0_iff_not_bit ac_simps)

lemma is_delim_OR: "is_delim (a OR b) r \<longleftrightarrow> is_delim a r \<or> is_delim b r"
  by (simp add: is_delim_bit bit_or_iff)

lemma is_delim_bit_of: "is_delim (bit_of c) r \<longleftrightarrow> r = c \<and> c < 64"
  by (auto simp: is_delim_bit bit_of_def bit_exp_iff possible_bit_word)

lemma is_delim_WHITESPACE: "is_delim WHITESPACE r \<longleftrightarrow> r = 9 \<or> r = 10 \<or> r = 13 \<or> r = 32"
  by (auto simp: WHITESPACE_def is_delim_OR is_delim_bit_of)

lemma readTill_append:
  "\<forall>c\<in>set w. \<not> is_delim d c \<Longrightarrow> is_delim d r \<Longrightarrow> readTill d (w @ r # t) = ((w, None), r # t)"
  by (induction w) auto

lemma ignoreWhiteSpace_append:
  "\<forall>c\<in>set ws. is_delim WHITESPACE c \<Longrightarrow> \<not> is_delim WHITESPACE r \<Longrightarrow>
     ignoreWhiteSpace (ws @ r # t) = (None, r # t)"
  by (induction ws) auto

lemma splitColon_acc:
  "splitColon acc w = Some (a, b) \<Longrightarrow> \<exists>a'. a = rev acc @ a' \<and> w = a' @ of_char CHR '':'' # b"
  by (induction acc w rule: splitColon.induct) (auto split: if_splits)

lemma splitColon_Some: "splitColon [] w = Some (a, b) \<Longrightarrow> w = a @ of_char CHR '':'' # b"
  using splitColon_acc [of "[]" w a b] by simp

lemma readColonPair_name:
  assumes "\<forall>c\<in>set name. \<not> is_delim d c" "is_delim d r" "name = [] \<or> last name \<noteq> of_char CHR '':''"
  shows "\<exists>p. readColonPair d (name @ r # t) = (Inr p, r # t)"
proof (cases "splitColon [] name")
  case None
  then show ?thesis using assms by (auto simp: readColonPair_def readTill_append)
next
  case (Some ab)
  obtain a b where ab: "ab = (a, b)" by (cases ab)
  with Some have "name = a @ of_char CHR '':'' # b" by (auto dest: splitColon_Some)
  with assms(3) have "b \<noteq> []" by auto
  with Some ab assms show ?thesis by (auto simp: readColonPair_def readTill_append)
qed

lemma readTill_prefix: "readTill d s = ((w, e), s') \<Longrightarrow> s = w @ s'"
  by (induction s arbitrary: w) (auto split: if_splits prod.splits)

lemma readColonPair_prefix: "readColonPair d s = (x, s') \<Longrightarrow> \<exists>w. s = w @ s'"
  by (auto simp: readColonPair_def split: prod.splits option.splits if_splits
      dest: readTill_prefix)

lemma ignoreWhiteSpace_prefix: "ignoreWhiteSpace s = (e, s') \<Longrightarrow> \<exists>ws. s = ws @ s'"
proof (induction s)
  case Nil
  then show ?case by simp
next
  case (Cons r rs)
  show ?case
  proof (cases "is_delim WHITESPACE r")
    case True
    with Cons obtain ws where "rs = ws @ s'" by auto
    then have "r # rs = (r # ws) @ s'" by simp
    then show ?thesis by blast
  next
    case False
    with Cons.prems have "r # rs = [] @ s'" by simp
    then show ?thesis by blast
  qed
qed

lemma readAttribute_whitespace_error:
  assumes name: "\<forall>c\<in>set name. \<not> is_delim WHITESPACE c \<and> c \<noteq> of_char CHR ''=''"
      "name = [] \<or> last name \<noteq> of_char CHR '':''"
    and ws: "\<forall>c\<in>set ws. is_delim WHITESPACE c"
    and q: "q = of_char CHR 0x22 \<or> q = of_char CHR 0x27"
    and v: "q \<notin> set v" "\<exists>c\<in>set v. is_delim WHITESPACE c"
  shows "fst (readAttribute (name @ ws @ of_char CHR ''='' # q # v @ q # rest)) = Inl ExpectedClosingQuote"
proof -
  let ?D = "WHITESPACE OR bit_of (of_char CHR ''='')"
  let ?tail = "of_char CHR ''='' # q # v @ q # rest"
  from v(2) obtain v1 w v2 where split: "v = v1 @ w # v2" "is_delim WHITESPACE w"
      "\<forall>c\<in>set v1. \<not> is_delim WHITESPACE c"
    using split_list_first_prop [of v "is_delim WHITESPACE"] by blast
  have qws: "\<not> is_delim WHITESPACE q" using q by (auto simp: is_delim_WHITESPACE)
  have eqws: "\<not> is_delim WHITESPACE (of_char CHR ''='')" by (simp add: is_delim_WHITESPACE)
  have nameD: "\<forall>c\<in>set name. \<not> is_delim ?D c"
    using name(1) by (auto simp: is_delim_OR is_delim_bit_of)
  obtain r t where rt: "ws @ ?tail = r # t" "is_delim ?D r"
    using ws by (cases ws) (auto simp: is_delim_OR is_delim_bit_of)
  obtain p where cp: "readColonPair ?D (name @ ws @ ?tail) = (Inr p, ws @ ?tail)"
    using readColonPair_name [OF nameD rt(2) name(2), of t] rt(1) by auto
  have iw: "ignoreWhiteSpace (ws @ ?tail) = (None, ?tail)"
    using ws eqws by (rule ignoreWhiteSpace_append)
  have "\<forall>c\<in>set v1. \<not> is_delim (WHITESPACE OR bit_of q) c"
    using split(1,3) v(1) by (auto simp: is_delim_OR is_delim_bit_of)
  moreover have "is_delim (WHITESPACE OR bit_of q) w" using split(2) by (simp add: is_delim_OR)
  ultimately have till: "readTill (WHITESPACE OR bit_of q) (v @ q # rest) = ((v1, None), w # v2 @ q # rest)"
    using readTill_append [of v1 "WHITESPACE OR bit_of q" w "v2 @ q # rest"] split(1) by simp
  have "q \<noteq> w" using qws split(2) by auto
  then show ?thesis
    using cp iw till by (auto simp: readAttribute_def Let_def split: prod.splits)
qed

lemma readAttribute_Inr_value:
  assumes "readAttribute s = (Inr attr, s')"
  shows "(\<forall>c\<in>set (Value attr). \<not> is_delim WHITESPACE c) \<and>
         (\<exists>pre q. s = pre @ q # Value attr @ q # s' \<and> q \<notin> set (Value attr))"
proof -
  from assms obtain first second colonExists s1 nextRune s3 firstQuote e s4 word where
    cp: "readColonPair (WHITESPACE OR bit_of (of_char CHR ''='')) s = (Inr ((first, second), colonExists), s1)" and
    ws: "ignoreWhiteSpace s1 = (None, nextRune # s3)" and
    rr: "readARune s3 = ((firstQuote, e), s4)" and
    rt: "readTill (WHITESPACE OR bit_of firstQuote) s4 = ((word, None), firstQuote # s')" and
    attr: "attr = (if colonExists
             then \<lparr>Name = second, SchemaName = first, Value = word\<rparr>
             else \<lparr>Name = first, SchemaName = [], Value = word\<rparr>)"
    by (rule readAttribute_Inr)
  have val: "Value attr = word" using attr by simp
  from readTill_None [OF rt] have s4: "s4 = word @ firstQuote # s'"
    and delim: "is_delim (WHITESPACE OR bit_of firstQuote) firstQuote"
    and nodelim: "\<forall>c\<in>set word. \<not> is_delim (WHITESPACE OR bit_of firstQuote) c"
    by auto
  have nows: "\<forall>c\<in>set word. \<not> is_delim WHITESPACE c" using nodelim by (simp add: is_delim_OR)
  have noq: "firstQuote \<notin> set word" using nodelim delim by auto
  from rr s4 have s3: "s3 = firstQuote # word @ firstQuote # s'"
    by (cases s3) auto
  from readColonPair_prefix [OF cp] obtain w0 where w0: "s = w0 @ s1" ..
  from ignoreWhiteSpace_prefix [OF ws] obtain w1 where w1: "s1 = w1 @ nextRune # s3" ..
  have "s = (w0 @ w1 @ [nextRune]) @ firstQuote # Value attr @ firstQuote # s'"
    using w0 w1 s3 val by simp
  with noq val have "\<exists>pre q. s = pre @ q # Value attr @ q # s' \<and> q \<notin> set (Value attr)"
    by blast
  with nows val show ?thesis by simp
qed

text \<open>
  C7. The claim: \<open>readAttribute\<close> fails whenever the first character after the attribute
  name and any whitespace is not \<open>=\<close>, and whenever the character after \<open>=\<close> is not a
  quote. The code sets \<open>err\<close> in both cases and goes on; the next call overwrites it. On
  \<open>a x"v"\<close> followed by a space, and on \<open>a=<v<\<close>, it returns the attribute \<open>a\<close> with the
  value \<open>v\<close> and no error.
\<close>

theorem readAttribute_accepts_missing_assignment_and_quote:
  \<open>readAttribute (runes ''a x"v" '') =
     (Inr \<lparr>Name = runes ''a'', SchemaName = [], Value = runes ''v''\<rparr>, runes '' '')
   \<and> readAttribute (runes ''a=<v<'') =
     (Inr \<lparr>Name = runes ''a'', SchemaName = [], Value = runes ''v''\<rparr>, [])\<close>
  by (simp add: readAttribute_def readColonPair_def runes_def is_delim_OR is_delim_bit_of
      is_delim_WHITESPACE)

text \<open>
  C8. The claim: after a successful parse every \<open>Tag.Name\<close> of the tree is non-empty.
  \<open>readColonPair\<close> rejects an empty word after a colon, but not an empty word without a
  colon: the document \<open><></>\<close> is read without error, into a block whose tag has the
  empty name.
\<close>

theorem Read_accepts_empty_tag_name:
  "Read 2 (runes ''<></>'') =
     Some (Inr (Block \<lparr>TagSchemaName = [], TagName = [], Attrs = []\<rparr> [] []), [])"
  by code_simp

text \<open>
  C10. An attribute whose quoted value contains a whitespace character makes
  \<open>readAttribute\<close> return the error "unexpected blank char. expected a closing quote",
  also when the closing quote follows later: for an attribute name without whitespace and
  \<open>=\<close> that does not end in a colon, followed by whitespace \<open>ws\<close>, \<open>=\<close>, a quote \<open>q\<close>,
  a value \<open>v\<close> without \<open>q\<close> but with a whitespace character, and \<open>q\<close> again.
  And when \<open>readAttribute\<close> succeeds, the value it returns contains no whitespace and
  stands in the input between two occurrences of a character \<open>q\<close> that it does not contain.
\<close>

theorem readAttribute_value_has_no_whitespace:
  "((\<forall>c\<in>set name. \<not> is_delim WHITESPACE c \<and> c \<noteq> of_char CHR ''='')
      \<and> (name = [] \<or> last name \<noteq> of_char CHR '':'')
      \<and> (\<forall>c\<in>set ws. is_delim WHITESPACE c)
      \<and> (q = of_char CHR 0x22 \<or> q = of_char CHR 0x27)
      \<and> q \<notin> set v \<and> (\<exists>c\<in>set v. is_delim WHITESPACE c)
    \<longrightarrow> fst (readAttribute (name @ ws @ of_char CHR ''='' # q # v @ q # rest))
          = Inl ExpectedClosingQuote)
   \<and> (readAttribute s = (Inr attr, s')
    \<longrightarrow> (\<forall>c\<in>set (Value attr). \<not> is_delim WHITESPACE c)
        \<and> (\<exists>pre q'. s = pre @ q' # Value attr @ q' # s' \<and> q' \<notin> set (Value attr)))"
  using readAttribute_whitespace_error [of name ws q v rest]
    readAttribute_Inr_value [of s attr s']
  by blast

theorem readAttribute_value_has_no_whitespace_witness:
  \<open>fst (readAttribute (runes ''k="a b" '')) = Inl ExpectedClosingQuote
   \<and> list_all (\<lambda>c. \<not> is_delim WHITESPACE c) (runes ''ab'')
   \<and> (\<exists>pre q'. runes ''k="ab" '' = pre @ q' # runes ''ab'' @ q' # runes '' ''
         \<and> q' \<notin> set (runes ''ab''))\<close>
proof -
  have ok: \<open>readAttribute (runes ''k="ab" '') =
      (Inr \<lparr>Name = runes ''k'', SchemaName = [], Value = runes ''ab''\<rparr>, runes '' '')\<close>
    by (simp add: readAttribute_def readColonPair_def runes_def is_delim_OR is_delim_bit_of
        is_delim_WHITESPACE)
  show ?thesis
    using readAttribute_value_has_no_whitespace
      [of \<open>runes ''k''\<close> \<open>[]\<close> \<open>of_char CHR 0x22\<close> \<open>runes ''a b''\<close> \<open>runes '' ''\<close>
        \<open>runes ''k="ab" ''\<close> \<open>\<lparr>Name = runes ''k'', SchemaName = [], Value = runes ''ab''\<rparr>\<close>
        \<open>runes '' ''\<close>] ok
    by (simp add: runes_def is_delim_WHITESPACE list_all_iff)
qed


section \<open>Properties of the parser\<close>

lemma getRDFAttributeIndex_no_error: "snd (getRDFAttributeIndex U p tag attrName) = None"
  by (simp add: getRDFAttributeIndex_def)

lemma appendTriple_fields [simp]:
  "wg (appendTriple U t p) = wg p"
  "schemaDefinition (appendTriple U t p) = schemaDefinition p"
  "rdfNS (appendTriple U t p) = rdfNS p"
  "blankNodeGetter (appendTriple U t p) = blankNodeGetter p"
  by (simp_all add: appendTriple_def)

lemma nodeFromTag_Inr:
  "\<exists>node g. nodeFromTag U p tag = (Inr node, p\<lparr>blankNodeGetter := g\<rparr>)"
proof -
  have same: "\<exists>g. p = p\<lparr>blankNodeGetter := g\<rparr>"
    by (rule exI [of _ "blankNodeGetter p"]) simp
  show ?thesis
    unfolding nodeFromTag_def getRDFAttributeIndex_def Get_def GetFromId_def
    by (auto split: prod.splits option.splits simp: same)
qed

lemma nodeFromTag_fields:
  assumes "nodeFromTag U p tag = (r, p')"
  shows "wg p' = wg p" "schemaDefinition p' = schemaDefinition p" "rdfNS p' = rdfNS p"
    "Triples p' = Triples p" "\<exists>node. r = Inr node"
  using nodeFromTag_Inr [of U p tag] assms by auto

lemma parseObjects_Continue:
  "\<exists>st'. parseObjects U node predicateNode objs st = Continue st'
     \<and> wg (uparser st') = wg (uparser st) + int (length objs)
     \<and> length (spawned st') = length (spawned st) + length objs
     \<and> map fst (spawned st') = map fst (spawned st) @ objs
     \<and> schemaDefinition (uparser st') = schemaDefinition (uparser st)
     \<and> rdfNS (uparser st') = rdfNS (uparser st)"
proof (induction objs arbitrary: st)
  case Nil
  show ?case by simp
next
  case (Cons objectBlock rest)
  obtain objectNode g where nft:
    "nodeFromTag U (uparser st) (OpeningTag objectBlock) = (Inr objectNode, (uparser st)\<lparr>blankNodeGetter := g\<rparr>)"
    using nodeFromTag_Inr by blast
  define st2 where "st2 = st\<lparr>uparser := (appendTriple U
        \<lparr>Subject = node, Predicate = predicateNode, Object = objectNode\<rparr>
        ((uparser st)\<lparr>blankNodeGetter := g\<rparr>))\<lparr>wg := wg (uparser st) + 1\<rparr>, errp := None,
      spawned := spawned st @ [(objectBlock, objectNode)]\<rparr>"
  have eq: "parseObjects U node predicateNode (objectBlock # rest) st
      = parseObjects U node predicateNode rest st2"
    by (simp add: nft st2_def Let_def)
  from Cons.IH [of st2] obtain st' where
    "parseObjects U node predicateNode rest st2 = Continue st'"
    "wg (uparser st') = wg (uparser st2) + int (length rest)"
    "length (spawned st') = length (spawned st2) + length rest"
    "map fst (spawned st') = map fst (spawned st2) @ rest"
    "schemaDefinition (uparser st') = schemaDefinition (uparser st2)"
    "rdfNS (uparser st') = rdfNS (uparser st2)"
    by blast
  then show ?case unfolding eq by (simp add: st2_def)
qed

lemma parsePredicate_cases:
  "(\<exists>st'. parsePredicate U currBlock node pb st = Return st'
      \<and> schemaDefinition (uparser st) (TagSchemaName (OpeningTag currBlock)) = None
      \<and> errp st' = Some (UndefinedSchemaName (TagSchemaName (OpeningTag currBlock)))
      \<and> wg (uparser st') = wg (uparser st) \<and> spawned st' = spawned st
      \<and> schemaDefinition (uparser st') = schemaDefinition (uparser st))
   \<or> (\<exists>st'. parsePredicate U currBlock node pb st = Continue st'
      \<and> schemaDefinition (uparser st) (TagSchemaName (OpeningTag currBlock)) \<noteq> None
      \<and> wg (uparser st') = wg (uparser st) + int (length (Children pb))
      \<and> length (spawned st') = length (spawned st) + length (Children pb)
      \<and> schemaDefinition (uparser st') = schemaDefinition (uparser st))"
proof -
  obtain predicateNode g where nft:
    "nodeFromTag U (uparser st) (OpeningTag pb) = (Inr predicateNode, (uparser st)\<lparr>blankNodeGetter := g\<rparr>)"
    using nodeFromTag_Inr by blast
  show ?thesis
  proof (cases "schemaDefinition (uparser st) (TagSchemaName (OpeningTag currBlock))")
    case None
    then show ?thesis by (simp add: parsePredicate_def nft uriFromPair_def)
  next
    case (Some base)
    define p2 where "p2 = appendTriple U
        \<lparr>Subject = node,
         Predicate = \<lparr>NodeType = IRI, ID = URIString U (AddFragment U (rdfNS (uparser st)) (runes ''type''))\<rparr>,
         Object = \<lparr>NodeType = IRI, ID = URIString U (AddFragment U base (TagName (OpeningTag currBlock)))\<rparr>\<rparr>
        ((uparser st)\<lparr>blankNodeGetter := g\<rparr>)"
    define objectString where "objectString =
        (if attrIndexLoop U p2 (runes ''resource'') 0 (Attrs (OpeningTag pb)) \<noteq> -1
         then Value (Attrs (OpeningTag pb) ! nat (attrIndexLoop U p2 (runes ''resource'') 0 (Attrs (OpeningTag pb))))
         else BlockValue pb)"
    define stin where "stin =
        (if Children pb = []
         then st\<lparr>uparser := appendTriple U
                \<lparr>Subject = node, Predicate = predicateNode,
                 Object = \<lparr>NodeType = LITERAL, ID = objectString\<rparr>\<rparr> p2, errp := None\<rparr>
         else st\<lparr>uparser := p2, errp := None\<rparr>)"
    have pp: "parsePredicate U currBlock node pb st
        = parseObjects U node predicateNode (Children pb) stin"
      by (simp add: parsePredicate_def nft uriFromPair_def Some Let_def getRDFAttributeIndex_def
          p2_def objectString_def stin_def)
    have stin: "wg (uparser stin) = wg (uparser st)" "spawned stin = spawned st"
      "schemaDefinition (uparser stin) = schemaDefinition (uparser st)"
      by (simp_all add: stin_def p2_def)
    from parseObjects_Continue [of U node predicateNode "Children pb" stin] obtain st' where
      "parseObjects U node predicateNode (Children pb) stin = Continue st'"
      "wg (uparser st') = wg (uparser stin) + int (length (Children pb))"
      "length (spawned st') = length (spawned stin) + length (Children pb)"
      "schemaDefinition (uparser st') = schemaDefinition (uparser stin)"
      by blast
    then show ?thesis using pp stin Some by simp
  qed
qed

lemma parsePredicates_wg:
  "parsePredicates U currBlock node pbs st = r \<Longrightarrow>
   (case r of
      Return st' \<Rightarrow> errp st' \<noteq> None \<and> pbs \<noteq> []
        \<and> schemaDefinition (uparser st) (TagSchemaName (OpeningTag currBlock)) = None
    | Continue st' \<Rightarrow> True)
   \<and> (let st' = (case r of Return x \<Rightarrow> x | Continue x \<Rightarrow> x)
      in wg (uparser st') - int (length (spawned st')) = wg (uparser st) - int (length (spawned st))
         \<and> schemaDefinition (uparser st') = schemaDefinition (uparser st))"
proof (induction pbs arbitrary: st r)
  case Nil
  then show ?case by auto
next
  case (Cons pb rest)
  from parsePredicate_cases [of U currBlock node pb st] show ?case
  proof (elim disjE exE conjE)
    fix st' assume "parsePredicate U currBlock node pb st = Return st'"
      "schemaDefinition (uparser st) (TagSchemaName (OpeningTag currBlock)) = None"
      "errp st' = Some (UndefinedSchemaName (TagSchemaName (OpeningTag currBlock)))"
      "wg (uparser st') = wg (uparser st)" "spawned st' = spawned st"
      "schemaDefinition (uparser st') = schemaDefinition (uparser st)"
    with Cons.prems show ?thesis by auto
  next
    fix st' assume a: "parsePredicate U currBlock node pb st = Continue st'"
      "schemaDefinition (uparser st) (TagSchemaName (OpeningTag currBlock)) \<noteq> None"
      "wg (uparser st') = wg (uparser st) + int (length (Children pb))"
      "length (spawned st') = length (spawned st) + length (Children pb)"
      "schemaDefinition (uparser st') = schemaDefinition (uparser st)"
    with Cons.prems have "parsePredicates U currBlock node rest st' = r" by simp
    from Cons.IH [OF this] a show ?thesis by (auto simp: Let_def split: flow.splits)
  qed
qed

text \<open>
  The counter of the wait group minus the number of goroutines started and not yet run.
\<close>

definition surplus :: "'u config \<Rightarrow> int" where
  "surplus c = wg (parser c) - int (length (units c))"

lemma parseBlock_wg:
  assumes "spawned st = []"
  shows "schemaDefinition (uparser (parseBlock U b n st)) = schemaDefinition (uparser st)"
    and "parsePredicates U b n (Children b) st = Return st' \<Longrightarrow>
           parseBlock U b n st = st' \<and> errp st' \<noteq> None
           \<and> wg (uparser st') = wg (uparser st) + int (length (spawned st'))"
    and "parsePredicates U b n (Children b) st = Continue st' \<Longrightarrow>
           wg (uparser (parseBlock U b n st)) = wg (uparser st) + int (length (spawned st')) - 1
           \<and> spawned (parseBlock U b n st) = spawned st'"
  using parsePredicates_wg [of U b n "Children b" st, OF refl] assms
  by (auto simp: parseBlock_def Let_def split: flow.splits)

lemma stepUnit_surplus:
  "surplus c \<le> surplus (stepUnit U j c)"
proof (cases "j < length (units c)")
  case False
  then show ?thesis by (simp add: stepUnit_def)
next
  case True
  obtain b n k where u: "units c ! j = (b, n, k)" by (cases "units c ! j")
  let ?st = "\<lparr>uparser = parser c, errp = slots c k, spawned = []\<rparr>"
  have len: "length (take j (units c) @ drop (Suc j) (units c)) = length (units c) - 1"
    using True by simp
  show ?thesis
  proof (cases "parsePredicates U b n (Children b) ?st")
    case (Continue st')
    from parseBlock_wg(3) [OF _ this] show ?thesis
      using True u len by (simp add: stepUnit_def surplus_def Let_def)
  next
    case (Return st')
    from parseBlock_wg(2) [OF _ this] show ?thesis
      using True u len by (simp add: stepUnit_def surplus_def Let_def)
  qed
qed

lemma stepUnit_early:
  assumes "j < length (units c)" "units c ! j = (b, n, k)"
    and "parsePredicates U b n (Children b) \<lparr>uparser = parser c, errp = slots c k, spawned = []\<rparr> = Return st'"
  shows "surplus (stepUnit U j c) = surplus c + 1"
proof -
  have len: "length (take j (units c) @ drop (Suc j) (units c)) = length (units c) - 1"
    using assms(1) by simp
  from parseBlock_wg(2) [OF _ assms(3)] show ?thesis
    using assms(1,2) len by (simp add: stepUnit_def surplus_def Let_def)
qed

lemma stepUnit_main: "main (stepUnit U j c) = main c"
  by (simp add: stepUnit_def Let_def split: prod.splits)

lemma stepMain_surplus: "surplus c \<le> surplus (stepMain U c)"
proof (cases "main c")
  case (AtLoop bs)
  show ?thesis
  proof (cases bs)
    case Nil
    with AtLoop show ?thesis by (simp add: stepMain_def surplus_def)
  next
    case (Cons child rest)
    obtain node g where
      "nodeFromTag U ((parser c)\<lparr>wg := wg (parser c) + 1\<rparr>) (OpeningTag child)
         = (Inr node, (parser c)\<lparr>wg := wg (parser c) + 1\<rparr>\<lparr>blankNodeGetter := g\<rparr>)"
      using nodeFromTag_Inr by blast
    with AtLoop Cons show ?thesis by (simp add: stepMain_def surplus_def Let_def)
  qed
qed (auto simp: stepMain_def surplus_def split: option.splits)

text \<open>
  Every goroutine not yet run is counted, and once \<open>Parse\<close> has returned nil none is left.
\<close>

definition sound :: "'u config \<Rightarrow> bool" where
  "sound c = (0 \<le> surplus c \<and> (main c \<noteq> Finished None \<or> units c = []))"

lemma step_sound: "sound c \<Longrightarrow> sound (step U a c)"
proof (cases a)
  case Main
  assume s: "sound c"
  have "main (stepMain U c) = Finished None \<Longrightarrow> main c \<noteq> Finished None \<Longrightarrow> wg (parser c) = 0 \<and> units (stepMain U c) = units c"
    by (cases "main c")
      (auto simp: stepMain_def Let_def split: list.splits prod.splits sum.splits option.splits if_splits)
  moreover have "main c = Finished None \<Longrightarrow> stepMain U c = c" by (simp add: stepMain_def)
  ultimately show ?thesis
    using s stepMain_surplus [of c U] Main
    by (cases "main c = Finished None") (auto simp: sound_def surplus_def)
next
  case (Unit j)
  assume s: "sound c"
  have "units c = [] \<Longrightarrow> stepUnit U j c = c" by (simp add: stepUnit_def)
  then show ?thesis
    using s stepUnit_surplus [of c U j] Unit
    by (cases "units c = []") (auto simp: sound_def stepUnit_main)
qed

lemma run_sound: "sound c \<Longrightarrow> sound (run U sched c)"
  by (induction sched arbitrary: c) (auto intro: step_sound)

text \<open>
  The counter is above the number of goroutines that can still call \<open>wg.Done()\<close>, and
  \<open>Parse\<close> has not returned nil.
\<close>

definition stuck :: "'u config \<Rightarrow> bool" where
  "stuck c = (int (length (units c)) < wg (parser c) \<and> main c \<noteq> Finished None)"

lemma step_stuck: "stuck c \<Longrightarrow> stuck (step U a c)"
proof (cases a)
  case Main
  assume s: "stuck c"
  have "main (stepMain U c) = Finished None \<Longrightarrow> main c \<noteq> Finished None \<Longrightarrow> wg (parser c) = 0"
    by (cases "main c")
      (auto simp: stepMain_def Let_def split: list.splits prod.splits sum.splits option.splits if_splits)
  then show ?thesis
    using s stepMain_surplus [of c U] Main by (auto simp: stuck_def surplus_def)
next
  case (Unit j)
  assume s: "stuck c"
  then show ?thesis
    using stepUnit_surplus [of c U j] Unit by (auto simp: stuck_def surplus_def stepUnit_main)
qed

lemma run_stuck: "stuck c \<Longrightarrow> stuck (run U sched c)"
  by (induction sched arbitrary: c) (auto intro: step_stuck)

lemma run_append: "run U (s1 @ s2) c = run U s2 (run U s1 c)"
  by (induction s1 arbitrary: c) auto

lemma ParseStart_sound:
  "ParseStart U n file p = Some c0 \<Longrightarrow> wg p = 0 \<Longrightarrow> sound c0"
  by (auto simp: ParseStart_def startConfig_def sound_def surplus_def
      split: option.splits prod.splits sum.splits)



lemma appendTriple_twice: "appendTriple U t (appendTriple U t p) = appendTriple U t p"
  by (simp add: appendTriple_def)

lemma appendTriple_funpow: "(appendTriple U t ^^ Suc n) p = appendTriple U t p"
  by (induction n) (simp_all add: appendTriple_twice)

text \<open>
  C9. Inserting the same triple again leaves the store as it was after the first insert,
  whatever the number of repetitions, and the store then holds the triple under its
  canonical string: \<open>appendTriple\<close> is idempotent. A triple with the same subject,
  predicate and object has the same canonical string, and inserting it after the first
  changes nothing.
\<close>

theorem appendTriple_idempotent:
  "(Subject t' = Subject t \<and> Predicate t' = Predicate t \<and> Object t' = Object t
      \<longrightarrow> Hash U t' = Hash U t
          \<and> appendTriple U t' (appendTriple U t p) = appendTriple U t p)
   \<and> (appendTriple U t ^^ Suc n) p = appendTriple U t p
   \<and> Triples ((appendTriple U t ^^ Suc n) p) = (Triples p)(Hash U t \<mapsto> t)"
proof -
  have same: "t' = t"
    if "Subject t' = Subject t \<and> Predicate t' = Predicate t \<and> Object t' = Object t"
    using that by simp
  have "Triples (appendTriple U t p) = (Triples p)(Hash U t \<mapsto> t)"
    by (simp add: appendTriple_def)
  then show ?thesis
    unfolding appendTriple_funpow using same appendTriple_twice [of U t p] by blast
qed

theorem appendTriple_idempotent_witness:
  "Hash textExt \<lparr>Subject = \<lparr>NodeType = IRI, ID = runes ''s''\<rparr>,
        Predicate = \<lparr>NodeType = IRI, ID = runes ''p''\<rparr>,
        Object = \<lparr>NodeType = LITERAL, ID = runes ''o''\<rparr>\<rparr>
     = runes ''{(IRI, s); (IRI, p); (LITERAL, o)}''
   \<and> appendTriple textExt
        \<lparr>Subject = \<lparr>NodeType = IRI, ID = runes ''s''\<rparr>,
         Predicate = \<lparr>NodeType = IRI, ID = runes ''p''\<rparr>,
         Object = \<lparr>NodeType = LITERAL, ID = runes ''o''\<rparr>\<rparr>
        (appendTriple textExt
           \<lparr>Subject = \<lparr>NodeType = IRI, ID = runes ''s''\<rparr>,
            Predicate = \<lparr>NodeType = IRI, ID = runes ''p''\<rparr>,
            Object = \<lparr>NodeType = LITERAL, ID = runes ''o''\<rparr>\<rparr> (New textExt))
     = appendTriple textExt
        \<lparr>Subject = \<lparr>NodeType = IRI, ID = runes ''s''\<rparr>,
         Predicate = \<lparr>NodeType = IRI, ID = runes ''p''\<rparr>,
         Object = \<lparr>NodeType = LITERAL, ID = runes ''o''\<rparr>\<rparr> (New textExt)"
  using appendTriple_idempotent
    [of "\<lparr>Subject = \<lparr>NodeType = IRI, ID = runes ''s''\<rparr>,
          Predicate = \<lparr>NodeType = IRI, ID = runes ''p''\<rparr>,
          Object = \<lparr>NodeType = LITERAL, ID = runes ''o''\<rparr>\<rparr>"
        "\<lparr>Subject = \<lparr>NodeType = IRI, ID = runes ''s''\<rparr>,
          Predicate = \<lparr>NodeType = IRI, ID = runes ''p''\<rparr>,
          Object = \<lparr>NodeType = LITERAL, ID = runes ''o''\<rparr>\<rparr>"
        textExt "New textExt" 0]
  by (simp add: Hash_def textExt_def kindName_def runes_def)


text \<open>
  C6. The claim: the attribute search scans all attributes, and an attribute of the RDF
  namespace that stands after an attribute whose prefix does not resolve is still found.
  The loop leaves with \<open>break\<close> at the first attribute whose prefix is not declared: in
  \<open><rdf:Description foo:x="1" rdf:about="u">\<close> the attribute \<open>rdf:about\<close> resolves to the
  target and the search returns -1; with the two attributes exchanged it returns 0.
\<close>

theorem getRDFAttributeIndex_stops_at_undeclared_prefix: 
  "getRDFAttributeIndex U (rdfParser U) aboutAfterUndeclared (runes ''about'') = (-1, None)
   \<and> uriFromPair U (rdfParser U) (SchemaName (Attrs aboutAfterUndeclared ! 1))
        (Name (Attrs aboutAfterUndeclared ! 1))
      = Inr (AddFragment U (rdfNS (rdfParser U)) (runes ''about''))
   \<and> getRDFAttributeIndex U (rdfParser U)
        (aboutAfterUndeclared\<lparr>Attrs := rev (Attrs aboutAfterUndeclared)\<rparr>) (runes ''about'') = (0, None)"
  by (simp add: getRDFAttributeIndex_def rdfParser_def aboutAfterUndeclared_def uriFromPair_def
      runes_def)

text \<open>
  C4. The claim: if an \<open>rdf:about\<close> attribute is present, \<open>nodeFromTag\<close> yields the IRI
  node of its value. For \<open><rdf:Description foo:x="1" rdf:about="u">\<close> it yields a fresh
  blank node, since the attribute search stops at \<open>foo:x\<close>.
\<close>

theorem nodeFromTag_misses_about_after_undeclared_prefix:
  "fst (nodeFromTag U (rdfParser U) aboutAfterUndeclared)
     = Inr \<lparr>NodeType = BLANK, ID = BlankID U 0\<rparr>"
  by (simp add: nodeFromTag_def getRDFAttributeIndex_def rdfParser_def aboutAfterUndeclared_def
      uriFromPair_def runes_def Get_def New_def)

lemma Read_defaultNamespaceDoc:
  "Read 2 defaultNamespaceDoc =
     Some (Inr (Block \<lparr>TagSchemaName = [], TagName = runes ''r'',
                      Attrs = [\<lparr>Name = runes ''xmlns'', SchemaName = [], Value = runes ''u''\<rparr>]\<rparr>
                 [] []), [])"
  by code_simp

lemma run_schemaDefinition:
  "schemaDefinition (parser (run U sched c)) = schemaDefinition (parser c)"
proof (induction sched arbitrary: c)
  case Nil
  show ?case by simp
next
  case (Cons a sched)
  have "schemaDefinition (parser (step U a c)) = schemaDefinition (parser c)"
  proof (cases a)
    case Main
    show ?thesis
    proof (cases "main c")
      case (AtLoop bs)
      show ?thesis
      proof (cases bs)
        case Nil
        with AtLoop Main show ?thesis by (simp add: stepMain_def)
      next
        case (Cons child rest)
        obtain node g where
          "nodeFromTag U ((parser c)\<lparr>wg := wg (parser c) + 1\<rparr>) (OpeningTag child)
             = (Inr node, (parser c)\<lparr>wg := wg (parser c) + 1\<rparr>\<lparr>blankNodeGetter := g\<rparr>)"
          using nodeFromTag_Inr by blast
        with AtLoop Cons Main show ?thesis by (simp add: stepMain_def Let_def)
      qed
    qed (auto simp: Main stepMain_def split: option.splits)
  next
    case (Unit j)
    show ?thesis
      using parseBlock_wg(1) [of "\<lparr>uparser = parser c, errp = slots c k, spawned = []\<rparr>" for k]
      by (auto simp: Unit stepUnit_def Let_def split: prod.splits)
  qed
  with Cons.IH [of "step U a c"] show ?case by simp
qed

lemma headerLoop_dom:
  "headerLoop U m attrs = Inr sd \<Longrightarrow>
     dom sd = dom m \<union> Name ` {a \<in> set attrs. SchemaName a = runes ''xmlns''}"
proof (induction attrs arbitrary: m)
  case Nil
  then show ?case by auto
next
  case (Cons attr rest)
  show ?case
  proof (cases "SchemaName attr = runes ''xmlns''")
    case False
    with Cons.prems have "headerLoop U m rest = Inr sd" by simp
    from Cons.IH [OF this] False show ?thesis by auto
  next
    case True
    with Cons.prems obtain uriref where u: "NewURIRef U (Value attr) = Some uriref"
      and r: "headerLoop U (m(Name attr \<mapsto> uriref)) rest = Inr sd"
      by (auto split: option.splits)
    have "dom (m(Name attr \<mapsto> uriref)) = insert (Name attr) (dom m)" by simp
    with Cons.IH [OF r] have "dom sd = insert (Name attr) (dom m)
        \<union> Name ` {a \<in> set rest. SchemaName a = runes ''xmlns''}"
      by metis
    moreover have "Name ` {a \<in> set (attr # rest). SchemaName a = runes ''xmlns''}
        = insert (Name attr) (Name ` {a \<in> set rest. SchemaName a = runes ''xmlns''})"
      using True by auto
    ultimately show ?thesis by blast
  qed
qed

text \<open>
  C2. The claim: the namespace table always has an entry for the empty prefix, at
  construction and during and after \<open>Parse\<close>, and a default namespace declaration of the
  root is recorded under the empty prefix. \<open>Parse\<close> of \<open><r xmlns="u"></r>\<close> succeeds, and
  the table then has no entry for the empty prefix: the reader gives the attribute the
  name \<open>xmlns\<close> and no prefix, and \<open>parseHeaderBlock\<close> records only attributes whose
  prefix is \<open>xmlns\<close>.
\<close>

theorem Parse_default_namespace_counterexample:
  "map_option (\<lambda>c. (main c, schemaDefinition (parser c) []))
     (Parse textExt 2 (Some defaultNamespaceDoc) (New textExt) [Main, Main])
   = Some (Finished None, None)"
  by (simp add: Parse_def ParseStart_def Read_defaultNamespaceDoc parseHeaderBlock_def
      startConfig_def New_def stepMain_def runes_def)

text \<open>
  C2, amended. The table that \<open>New\<close> creates has an entry for the empty prefix, the zero
  value. After \<open>Parse\<close> has read the root and its namespaces, under every schedule, a
  non-empty prefix has an entry exactly when the root has an attribute \<open>xmlns:prefix\<close>.
  An attribute whose prefix is not \<open>xmlns\<close>, such as a default namespace declaration,
  adds nothing to the table.
\<close>

theorem namespaces_of_the_root:
  "schemaDefinition (New U) [] = Some (zeroURI U)
   \<and> (Read n doc = Some (Inr rootBlock, s) \<and> parseHeaderBlock U rootBlock = Inr sd
        \<and> Parse U n (Some doc) p sched = Some c \<and> k \<noteq> []
      \<longrightarrow> (schemaDefinition (parser c) k \<noteq> None
           \<longleftrightarrow> (\<exists>a\<in>set (Attrs (OpeningTag rootBlock)).
                  SchemaName a = runes ''xmlns'' \<and> Name a = k)))
   \<and> (SchemaName attr \<noteq> runes ''xmlns''
      \<longrightarrow> headerLoop U m (attr # rest) = headerLoop U m rest)"
proof -
  have "schemaDefinition (parser c) k \<noteq> None
           \<longleftrightarrow> (\<exists>a\<in>set (Attrs (OpeningTag rootBlock)).
                  SchemaName a = runes ''xmlns'' \<and> Name a = k)"
    if r: "Read n doc = Some (Inr rootBlock, s)" and h: "parseHeaderBlock U rootBlock = Inr sd"
      and p: "Parse U n (Some doc) p sched = Some c"
  proof -
    from r h p have "schemaDefinition (parser c) = sd"
      by (auto simp: Parse_def ParseStart_def run_schemaDefinition startConfig_def)
    moreover from h have "dom sd = Name ` {a \<in> set (Attrs (OpeningTag rootBlock)). SchemaName a = runes ''xmlns''}"
      using headerLoop_dom [of U Map.empty] by (simp add: parseHeaderBlock_def)
    ultimately show ?thesis by (auto simp: dom_def set_eq_iff image_iff)
  qed
  then show ?thesis by (simp add: New_def)
qed

theorem namespaces_of_the_root_witness:
  "schemaDefinition (New textExt) [] = Some []
   \<and> (\<exists>c. Parse textExt 2 (Some defaultNamespaceDoc) (New textExt) [Main, Main] = Some c
          \<and> schemaDefinition (parser c) (runes ''xmlns'') = None)
   \<and> headerLoop textExt Map.empty
        [\<lparr>Name = runes ''xmlns'', SchemaName = [], Value = runes ''u''\<rparr>]
      = headerLoop textExt Map.empty []"
proof -
  obtain c where c: "Parse textExt 2 (Some defaultNamespaceDoc) (New textExt) [Main, Main] = Some c"
    by (simp add: Parse_def ParseStart_def Read_defaultNamespaceDoc parseHeaderBlock_def runes_def)
  have h: "parseHeaderBlock textExt
      (Block \<lparr>TagSchemaName = [], TagName = runes ''r'',
              Attrs = [\<lparr>Name = runes ''xmlns'', SchemaName = [], Value = runes ''u''\<rparr>]\<rparr> [] [])
    = Inr Map.empty"
    by (simp add: parseHeaderBlock_def runes_def)
  from namespaces_of_the_root [where U = textExt and n = 2 and doc = defaultNamespaceDoc and s = "[]"
      and rootBlock = "Block \<lparr>TagSchemaName = [], TagName = runes ''r'',
              Attrs = [\<lparr>Name = runes ''xmlns'', SchemaName = [], Value = runes ''u''\<rparr>]\<rparr> [] []"
      and sd = Map.empty and p = "New textExt" and sched = "[Main, Main]" and c = c
      and k = "runes ''xmlns''"
      and attr = "\<lparr>Name = runes ''xmlns'', SchemaName = [], Value = runes ''u''\<rparr>"
      and m = Map.empty and rest = "[]"]
    Read_defaultNamespaceDoc h c
  show ?thesis by (auto simp: runes_def textExt_def)
qed

lemma attrIndexLoop_find:
  assumes "\<forall>a\<in>set attrs. schemaDefinition p (SchemaName a) \<noteq> None"
  shows "(find (isRDFAttribute U p attrName) attrs = None
            \<longrightarrow> attrIndexLoop U p attrName i attrs = -1)
       \<and> (\<forall>a. find (isRDFAttribute U p attrName) attrs = Some a
            \<longrightarrow> (\<exists>j<length attrs. attrIndexLoop U p attrName i attrs = i + int j \<and> attrs ! j = a))"
  using assms
proof (induction attrs arbitrary: i)
  case Nil
  show ?case by simp
next
  case (Cons attr rest)
  from Cons.prems obtain base where base: "schemaDefinition p (SchemaName attr) = Some base"
    by auto
  show ?case
  proof (cases "isRDFAttribute U p attrName attr")
    case True
    then show ?thesis by (auto simp: isRDFAttribute_def uriFromPair_def base)
  next
    case False
    have step: "attrIndexLoop U p attrName i (attr # rest) = attrIndexLoop U p attrName (i + 1) rest"
      using False by (auto simp: isRDFAttribute_def uriFromPair_def base)
    from Cons.IH [of "i + 1"] Cons.prems have IH:
      "find (isRDFAttribute U p attrName) rest = None
         \<longrightarrow> attrIndexLoop U p attrName (i + 1) rest = -1"
      "\<forall>a. find (isRDFAttribute U p attrName) rest = Some a
         \<longrightarrow> (\<exists>j<length rest. attrIndexLoop U p attrName (i + 1) rest = i + 1 + int j \<and> rest ! j = a)"
      by auto
    show ?thesis
    proof (intro conjI allI impI)
      assume "find (isRDFAttribute U p attrName) (attr # rest) = None"
      with False IH(1) step show "attrIndexLoop U p attrName i (attr # rest) = -1" by simp
    next
      fix a assume "find (isRDFAttribute U p attrName) (attr # rest) = Some a"
      with False IH(2) obtain j where "j < length rest"
        "attrIndexLoop U p attrName (i + 1) rest = i + 1 + int j" "rest ! j = a" by auto
      then have "Suc j < length (attr # rest) \<and>
          attrIndexLoop U p attrName i (attr # rest) = i + int (Suc j) \<and> (attr # rest) ! Suc j = a"
        using step by simp
      then show "\<exists>j<length (attr # rest).
          attrIndexLoop U p attrName i (attr # rest) = i + int j \<and> (attr # rest) ! j = a"
        by blast
    qed
  qed
qed

lemma attrIndexLoop_cong:
  "schemaDefinition p' = schemaDefinition p \<Longrightarrow> rdfNS p' = rdfNS p \<Longrightarrow>
     attrIndexLoop U p' attrName i attrs = attrIndexLoop U p attrName i attrs"
  by (induction attrs arbitrary: i) (auto simp: uriFromPair_def split: option.splits)

lemma getRDFAttributeIndex_value:
  assumes "\<forall>a\<in>set (Attrs tag). schemaDefinition p (SchemaName a) \<noteq> None"
    and "getRDFAttributeIndex U p tag attrName = (idx, e)"
  shows "(if idx \<noteq> -1 then Value (Attrs tag ! nat idx) else dflt)
     = (case find (isRDFAttribute U p attrName) (Attrs tag) of
          Some a \<Rightarrow> Value a | None \<Rightarrow> dflt)"
proof (cases "find (isRDFAttribute U p attrName) (Attrs tag)")
  case None
  with attrIndexLoop_find [OF assms(1), of U attrName 0] assms(2) show ?thesis
    by (simp add: getRDFAttributeIndex_def)
next
  case (Some a)
  with attrIndexLoop_find [OF assms(1), of U attrName 0] obtain j where
    "j < length (Attrs tag)" "attrIndexLoop U p attrName 0 (Attrs tag) = int j" "Attrs tag ! j = a"
    by auto
  with assms(2) have "idx = int j" by (simp add: getRDFAttributeIndex_def)
  then have "idx \<noteq> -1" "nat idx = j" by simp_all
  with Some \<open>Attrs tag ! j = a\<close> show ?thesis by simp
qed

lemma RDFNS_not_empty: "RDFNS \<noteq> []"
  by (simp add: RDFNS_def runes_def)

lemma exampleParser_simps:
  "rdfNS exampleParser = RDFNS"
  "schemaDefinition exampleParser = [runes ''rdf'' \<mapsto> RDFNS, runes ''p'' \<mapsto> runes ''u/'']"
  "Triples exampleParser = Map.empty"
  "blankNodeGetter exampleParser = \<lparr>lastid = -1, byId = Map.empty\<rparr>"
  by (simp_all add: exampleParser_def New_def textExt_def RDFNS_not_empty runes_def)

lemma textExt_simps:
  "AddFragment textExt b f = b @ f" "URIString textExt u = u"
  "BlankID textExt i = of_char CHR ''N'' # replicate (nat i) (of_char CHR ''I'')"
  by (simp_all add: textExt_def)

lemma nodeFromTag_predicateResource:
  "nodeFromTag textExt exampleParser (OpeningTag predicateResource)
     = (Inr \<lparr>NodeType = BLANK, ID = runes ''N''\<rparr>,
        exampleParser\<lparr>blankNodeGetter := \<lparr>lastid = 0, byId = Map.empty\<rparr>\<rparr>)"
  by (simp add: nodeFromTag_def getRDFAttributeIndex_def predicateResource_def uriFromPair_def
      exampleParser_simps textExt_simps Get_def)
    (simp add: runes_def)

text \<open>
  C5. The claim: for every predicate block with no children the extractor emits the
  triple (subject, predicate node, Literal(object value)), the object value being that of
  the \<open>rdf:resource\<close> attribute if one is present and the text of the block otherwise.
  It fails where the tag of the subject block has a prefix that is not declared: the
  iteration returns from \<open>parseBlock\<close> with the error before any triple is emitted. And
  for \<open><p:m q:a="1" rdf:resource="R"/>\<close> the object is the literal of the (empty) text,
  not of \<open>R\<close>: the attribute search stops at \<open>q:a\<close>.
\<close>

theorem parsePredicate_without_literal_counterexample:
  "Children predicateResource = []
   \<and> parsePredicate textExt subjectUndeclared subjectNode predicateResource exampleState
     = Return (exampleState\<lparr>uparser := exampleParser\<lparr>blankNodeGetter := \<lparr>lastid = 0, byId = Map.empty\<rparr>\<rparr>,
                            errp := Some (UndefinedSchemaName (runes ''x''))\<rparr>)
   \<and> Children predicateResourceAfterUndeclared = []
   \<and> parsePredicate textExt subjectDeclared subjectNode predicateResourceAfterUndeclared exampleState
     = Continue (exampleState\<lparr>uparser :=
         appendTriple textExt
           \<lparr>Subject = subjectNode, Predicate = \<lparr>NodeType = BLANK, ID = runes ''N''\<rparr>,
            Object = \<lparr>NodeType = LITERAL, ID = []\<rparr>\<rparr>
           (appendTriple textExt
              \<lparr>Subject = subjectNode,
               Predicate = \<lparr>NodeType = IRI, ID = RDFNS @ runes ''type''\<rparr>,
               Object = \<lparr>NodeType = IRI, ID = runes ''u/T''\<rparr>\<rparr>
              (exampleParser\<lparr>blankNodeGetter := \<lparr>lastid = 0, byId = Map.empty\<rparr>\<rparr>))\<rparr>)"
proof -
  have n: "nodeFromTag textExt exampleParser (OpeningTag predicateResourceAfterUndeclared)
     = (Inr \<lparr>NodeType = BLANK, ID = runes ''N''\<rparr>,
        exampleParser\<lparr>blankNodeGetter := \<lparr>lastid = 0, byId = Map.empty\<rparr>\<rparr>)"
    by (simp add: nodeFromTag_def getRDFAttributeIndex_def predicateResourceAfterUndeclared_def
        uriFromPair_def exampleParser_simps textExt_simps Get_def runes_def)
  have a: "parsePredicate textExt subjectUndeclared subjectNode predicateResource exampleState
     = Return (exampleState\<lparr>uparser := exampleParser\<lparr>blankNodeGetter := \<lparr>lastid = 0, byId = Map.empty\<rparr>\<rparr>,
                            errp := Some (UndefinedSchemaName (runes ''x''))\<rparr>)"
    apply (simp add: parsePredicate_def exampleState_def nodeFromTag_predicateResource)
    apply (simp add: uriFromPair_def subjectUndeclared_def exampleParser_simps runes_def)
    done
  have b: "parsePredicate textExt subjectDeclared subjectNode predicateResourceAfterUndeclared exampleState
     = Continue (exampleState\<lparr>uparser :=
         appendTriple textExt
           \<lparr>Subject = subjectNode, Predicate = \<lparr>NodeType = BLANK, ID = runes ''N''\<rparr>,
            Object = \<lparr>NodeType = LITERAL, ID = []\<rparr>\<rparr>
           (appendTriple textExt
              \<lparr>Subject = subjectNode,
               Predicate = \<lparr>NodeType = IRI, ID = RDFNS @ runes ''type''\<rparr>,
               Object = \<lparr>NodeType = IRI, ID = runes ''u/T''\<rparr>\<rparr>
              (exampleParser\<lparr>blankNodeGetter := \<lparr>lastid = 0, byId = Map.empty\<rparr>\<rparr>))\<rparr>)"
    apply (simp add: parsePredicate_def exampleState_def n)
    apply (simp add: uriFromPair_def subjectDeclared_def exampleParser_simps textExt_simps
        Let_def getRDFAttributeIndex_def predicateResourceAfterUndeclared_def runes_def)
    done
  show ?thesis using a b by (simp add: predicateResource_def predicateResourceAfterUndeclared_def)
qed

text \<open>
  C5, amended. For every predicate block with no children, when the prefix of the subject
  block's tag is declared and so is the prefix of every attribute of the predicate block:
  the iteration emits the \<open>rdf:type\<close> triple of the subject and then the triple (subject,
  predicate node, literal of the object value), where the predicate node is the one
  \<open>nodeFromTag\<close> yields for the predicate block and the object value is the value of the
  first attribute that resolves to \<open>rdf:resource\<close> if there is one, and the text of the
  block otherwise; the loop goes on. The object is a literal in both cases.
\<close>

theorem parsePredicate_emits_literal:
  assumes "Children predicateBlock = []"
    and "schemaDefinition (uparser st) (TagSchemaName (OpeningTag currBlock)) = Some base"
    and "\<forall>a\<in>set (Attrs (OpeningTag predicateBlock)).
           schemaDefinition (uparser st) (SchemaName a) \<noteq> None"
    and "nodeFromTag U (uparser st) (OpeningTag predicateBlock) = (Inr predicateNode, p1)"
  shows "parsePredicate U currBlock node predicateBlock st =
     Continue (st\<lparr>uparser :=
         appendTriple U
           \<lparr>Subject = node, Predicate = predicateNode,
            Object = \<lparr>NodeType = LITERAL,
                      ID = (case find (isRDFAttribute U (uparser st) (runes ''resource''))
                                   (Attrs (OpeningTag predicateBlock)) of
                              Some a \<Rightarrow> Value a
                            | None \<Rightarrow> BlockValue predicateBlock)\<rparr>\<rparr>
           (appendTriple U
              \<lparr>Subject = node,
               Predicate = \<lparr>NodeType = IRI,
                            ID = URIString U (AddFragment U (rdfNS (uparser st)) (runes ''type''))\<rparr>,
               Object = \<lparr>NodeType = IRI,
                         ID = URIString U (AddFragment U base (TagName (OpeningTag currBlock)))\<rparr>\<rparr>
              p1),
       errp := None\<rparr>)"
proof -
  have p1: "schemaDefinition p1 = schemaDefinition (uparser st)" "rdfNS p1 = rdfNS (uparser st)"
    using nodeFromTag_fields [OF assms(4)] by simp_all
  define p2 where "p2 = appendTriple U
      \<lparr>Subject = node,
       Predicate = \<lparr>NodeType = IRI,
                    ID = URIString U (AddFragment U (rdfNS (uparser st)) (runes ''type''))\<rparr>,
       Object = \<lparr>NodeType = IRI,
                 ID = URIString U (AddFragment U base (TagName (OpeningTag currBlock)))\<rparr>\<rparr> p1"
  have p2: "schemaDefinition p2 = schemaDefinition (uparser st)" "rdfNS p2 = rdfNS (uparser st)"
    using p1 by (simp_all add: p2_def)
  obtain idx e where g: "getRDFAttributeIndex U (uparser st) (OpeningTag predicateBlock) (runes ''resource'') = (idx, e)"
    by (cases "getRDFAttributeIndex U (uparser st) (OpeningTag predicateBlock) (runes ''resource'')")
  then have g2: "getRDFAttributeIndex U p2 (OpeningTag predicateBlock) (runes ''resource'') = (idx, None)"
    using attrIndexLoop_cong [OF p2] by (auto simp: getRDFAttributeIndex_def)
  note v = getRDFAttributeIndex_value [OF assms(3) g, of "BlockValue predicateBlock"]
  show ?thesis
    using assms(1,2) v
    by (simp add: parsePredicate_def assms(4) uriFromPair_def p1 Let_def g2 p2_def [symmetric])
qed

theorem parsePredicate_emits_literal_witness:
  "parsePredicate textExt subjectDeclared subjectNode predicateResource exampleState
     = Continue (exampleState\<lparr>uparser :=
         appendTriple textExt
           \<lparr>Subject = subjectNode, Predicate = \<lparr>NodeType = BLANK, ID = runes ''N''\<rparr>,
            Object = \<lparr>NodeType = LITERAL, ID = runes ''R''\<rparr>\<rparr>
           (appendTriple textExt
              \<lparr>Subject = subjectNode,
               Predicate = \<lparr>NodeType = IRI, ID = RDFNS @ runes ''type''\<rparr>,
               Object = \<lparr>NodeType = IRI, ID = runes ''u/T''\<rparr>\<rparr>
              (exampleParser\<lparr>blankNodeGetter := \<lparr>lastid = 0, byId = Map.empty\<rparr>\<rparr>)),
         errp := None\<rparr>)"
proof -
  have h1: "Children predicateResource = []" by (simp add: predicateResource_def)
  have h2: "schemaDefinition (uparser exampleState) (TagSchemaName (OpeningTag subjectDeclared))
      = Some (runes ''u/'')"
    by (simp add: exampleState_def exampleParser_simps subjectDeclared_def runes_def)
  have h3: "\<forall>a\<in>set (Attrs (OpeningTag predicateResource)).
      schemaDefinition (uparser exampleState) (SchemaName a) \<noteq> None"
    by (simp add: exampleState_def exampleParser_simps predicateResource_def runes_def)
  have h4: "nodeFromTag textExt (uparser exampleState) (OpeningTag predicateResource)
     = (Inr \<lparr>NodeType = BLANK, ID = runes ''N''\<rparr>,
        exampleParser\<lparr>blankNodeGetter := \<lparr>lastid = 0, byId = Map.empty\<rparr>\<rparr>)"
    by (simp add: exampleState_def nodeFromTag_predicateResource)
  have f: "find (isRDFAttribute textExt (uparser exampleState) (runes ''resource''))
        (Attrs (OpeningTag predicateResource))
      = Some \<lparr>Name = runes ''resource'', SchemaName = runes ''rdf'', Value = runes ''R''\<rparr>"
    by (simp add: isRDFAttribute_def uriFromPair_def exampleState_def exampleParser_simps
        predicateResource_def textExt_simps runes_def)
  show ?thesis
    using parsePredicate_emits_literal [OF h1 h2 h3 h4, of subjectNode, unfolded f]
    by (simp add: exampleState_def exampleParser_simps textExt_simps subjectDeclared_def runes_def)
qed



lemma Read_undeclaredPrefixDoc:
  "Read 5 undeclaredPrefixDoc =
     Some (Inr (Block \<lparr>TagSchemaName = [], TagName = runes ''r'', Attrs = []\<rparr> []
                 [undeclaredSubject]), [])"
  by code_simp

lemma ParseStart_undeclaredPrefixDoc:
  "ParseStart U 5 (Some undeclaredPrefixDoc) (New U)
     = Some (startConfig ((New U)\<lparr>schemaDefinition := Map.empty\<rparr>) (AtLoop [undeclaredSubject]))"
  by (simp add: ParseStart_def Read_undeclaredPrefixDoc parseHeaderBlock_def)

lemma parsePredicates_undeclared:
  assumes "Children b = pb # rest"
    and "schemaDefinition (uparser st) (TagSchemaName (OpeningTag b)) = None"
  shows "\<exists>st'. parsePredicates U b n (Children b) st = Return st'
           \<and> errp st' = Some (UndefinedSchemaName (TagSchemaName (OpeningTag b)))"
  using parsePredicate_cases [of U b n pb st] assms by auto

lemma waiting_forever:
  "units c = [] \<Longrightarrow> main c = AtWait \<Longrightarrow> wg (parser c) \<noteq> 0 \<Longrightarrow> run U sched c = c"
proof (induction sched)
  case Nil
  show ?case by simp
next
  case (Cons a sched)
  have "step U a c = c"
    using Cons.prems by (cases a) (simp_all add: stepMain_def stepUnit_def)
  with Cons show ?case by simp
qed

lemma undeclared_first_step:
  "units (run U [Main] (undeclaredStart U))
     = [(undeclaredSubject, \<lparr>NodeType = BLANK, ID = BlankID U 0\<rparr>, 0)]
   \<and> main (run U [Main] (undeclaredStart U)) = AtCheck 0 []
   \<and> slots (run U [Main] (undeclaredStart U)) 0 = None
   \<and> wg (parser (run U [Main] (undeclaredStart U))) = 1
   \<and> schemaDefinition (parser (run U [Main] (undeclaredStart U))) = Map.empty"
  by (simp add: undeclaredStart_def startConfig_def stepMain_def nodeFromTag_def
      getRDFAttributeIndex_def undeclaredSubject_def Get_def New_def Let_def)

lemma undeclared_unit_step:
  assumes "units c = [(undeclaredSubject, nd, k)]" "schemaDefinition (parser c) = Map.empty"
  shows "units (stepUnit U 0 c) = []"
    and "wg (parser (stepUnit U 0 c)) = wg (parser c)"
    and "slots (stepUnit U 0 c) k = Some (UndefinedSchemaName (runes ''x''))"
    and "main (stepUnit U 0 c) = main c"
proof -
  let ?st = "\<lparr>uparser = parser c, errp = slots c k, spawned = []\<rparr>"
  have ch: "Children undeclaredSubject
      = Block \<lparr>TagSchemaName = [], TagName = runes ''n'', Attrs = []\<rparr> (runes ''v'') [] # []"
    by (simp add: undeclaredSubject_def)
  have "schemaDefinition (uparser ?st) (TagSchemaName (OpeningTag undeclaredSubject)) = None"
    using assms(2) by simp
  from parsePredicate_cases [of U undeclaredSubject nd
      "Block \<lparr>TagSchemaName = [], TagName = runes ''n'', Attrs = []\<rparr> (runes ''v'') []" ?st] this
  obtain st' where st': "parsePredicate U undeclaredSubject nd
      (Block \<lparr>TagSchemaName = [], TagName = runes ''n'', Attrs = []\<rparr> (runes ''v'') []) ?st = Return st'"
    "errp st' = Some (UndefinedSchemaName (TagSchemaName (OpeningTag undeclaredSubject)))"
    "wg (uparser st') = wg (uparser ?st)" "spawned st' = spawned ?st"
    by auto
  then have pb: "parseBlock U undeclaredSubject nd ?st = st'"
    by (simp add: parseBlock_def ch)
  show "units (stepUnit U 0 c) = []" "wg (parser (stepUnit U 0 c)) = wg (parser c)"
    "slots (stepUnit U 0 c) k = Some (UndefinedSchemaName (runes ''x''))"
    "main (stepUnit U 0 c) = main c"
    using assms(1) pb st'(2,3,4) by (simp_all add: stepUnit_def Let_def undeclaredSubject_def)
qed

text \<open>
  C1. The claim: for every document that is malformed anywhere, also when the error arises
  inside a scheduled extraction unit, \<open>Parse\<close> returns a non-nil error. In
  \<open><r><x:T><n>v</n></x:T></r>\<close> the prefix \<open>x\<close> is not declared. When \<open>Parse\<close> reaches
  \<open>wg.Wait()\<close> before the goroutine of \<open>x:T\<close> runs, the goroutine sets the error and returns
  without \<open>wg.Done()\<close>; no goroutine is left, the counter is 1, and \<open>Parse\<close> stays in
  \<open>wg.Wait()\<close> whatever is scheduled afterwards: it returns nothing.
\<close>

theorem Parse_blocks_after_unit_error:
  "map_option main
     (Parse U 5 (Some undeclaredPrefixDoc) (New U) ([Main, Main, Main, Unit 0] @ sched))
     = Some AtWait"
proof -
  let ?c1 = "run U [Main] (undeclaredStart U)"
  let ?c3 = "run U [Main, Main] ?c1"
  let ?c4 = "stepUnit U 0 ?c3"
  note f = undeclared_first_step [of U]
  have c3: "units ?c3 = units ?c1" "parser ?c3 = parser ?c1" "main ?c3 = AtWait"
    using f by (simp_all add: stepMain_def)
  have u: "units ?c3 = [(undeclaredSubject, \<lparr>NodeType = BLANK, ID = BlankID U 0\<rparr>, 0)]"
    "schemaDefinition (parser ?c3) = Map.empty"
    using f c3 by simp_all
  have c4: "units ?c4 = []" "main ?c4 = AtWait" "wg (parser ?c4) \<noteq> 0"
    using undeclared_unit_step [OF u, of U] c3 f by simp_all
  have "run U ([Main, Main, Main, Unit 0] @ sched) (undeclaredStart U) = run U sched ?c4"
    by (simp add: run_append)
  also have "\<dots> = ?c4" using c4 by (rule waiting_forever)
  finally show ?thesis
    using c4(2) by (simp add: Parse_def ParseStart_undeclaredPrefixDoc undeclaredStart_def)
qed

text \<open>
  C3. The claim: on a document in which a scheduled extraction unit returns early because
  of an error, \<open>Parse\<close> does not terminate. On the document of C1, when the goroutine of
  \<open>x:T\<close> runs between the \<open>go\<close> statement and the test \<open>if err != nil\<close> that follows it,
  the unit returns early with the error and \<open>Parse\<close> returns that error.
\<close>

theorem Parse_returns_after_unit_error_counterexample:
  "(\<exists>c1 b nd k st'.
       Parse textExt 5 (Some undeclaredPrefixDoc) (New textExt) [Main] = Some c1
       \<and> units c1 = [(b, nd, k)]
       \<and> parsePredicates textExt b nd (Children b)
            \<lparr>uparser = parser c1, errp = slots c1 k, spawned = []\<rparr> = Return st'
       \<and> errp st' = Some (UndefinedSchemaName (runes ''x'')))
   \<and> map_option main
        (Parse textExt 5 (Some undeclaredPrefixDoc) (New textExt) [Main, Unit 0, Main])
      = Some (Finished (Some (UndefinedSchemaName (runes ''x''))))"
proof -
  let ?c1 = "run textExt [Main] (undeclaredStart textExt)"
  let ?c2 = "stepUnit textExt 0 ?c1"
  note f = undeclared_first_step [of textExt]
  have p: "Parse textExt 5 (Some undeclaredPrefixDoc) (New textExt) [Main] = Some ?c1"
    by (simp add: Parse_def ParseStart_undeclaredPrefixDoc undeclaredStart_def)
  have ch: "Children undeclaredSubject
      = Block \<lparr>TagSchemaName = [], TagName = runes ''n'', Attrs = []\<rparr> (runes ''v'') [] # []"
    by (simp add: undeclaredSubject_def)
  have "schemaDefinition (uparser \<lparr>uparser = parser ?c1, errp = slots ?c1 0, spawned = []\<rparr>)
      (TagSchemaName (OpeningTag undeclaredSubject)) = None"
    using f by simp
  from parsePredicates_undeclared [OF ch this] obtain st' where
    "parsePredicates textExt undeclaredSubject \<lparr>NodeType = BLANK, ID = BlankID textExt 0\<rparr>
        (Children undeclaredSubject) \<lparr>uparser = parser ?c1, errp = slots ?c1 0, spawned = []\<rparr> = Return st'"
    "errp st' = Some (UndefinedSchemaName (runes ''x''))"
    by (auto simp: undeclaredSubject_def)
  with p f have first: "\<exists>c1 b nd k st'.
       Parse textExt 5 (Some undeclaredPrefixDoc) (New textExt) [Main] = Some c1
       \<and> units c1 = [(b, nd, k)]
       \<and> parsePredicates textExt b nd (Children b)
            \<lparr>uparser = parser c1, errp = slots c1 k, spawned = []\<rparr> = Return st'
       \<and> errp st' = Some (UndefinedSchemaName (runes ''x''))"
    by blast
  have u: "units ?c1 = [(undeclaredSubject, \<lparr>NodeType = BLANK, ID = BlankID textExt 0\<rparr>, 0)]"
    "schemaDefinition (parser ?c1) = Map.empty"
    using f by simp_all
  have "main ?c2 = AtCheck 0 []" "slots ?c2 0 = Some (UndefinedSchemaName (runes ''x''))"
    using undeclared_unit_step [OF u, of textExt] f by simp_all
  then have "main (stepMain textExt ?c2) = Finished (Some (UndefinedSchemaName (runes ''x'')))"
    by (simp add: stepMain_def)
  then have "map_option main
        (Parse textExt 5 (Some undeclaredPrefixDoc) (New textExt) [Main, Unit 0, Main])
      = Some (Finished (Some (UndefinedSchemaName (runes ''x''))))"
    by (simp add: Parse_def ParseStart_undeclaredPrefixDoc undeclaredStart_def)
  with first show ?thesis by blast
qed

text \<open>
  C3, amended. When a started extraction unit returns early (which it does with an error
  in the variable \<open>errp\<close> points to), \<open>parseBlock\<close> has not decremented the counter of the
  wait group: the counter is what it was plus one for every goroutine the unit started.
  From then on, under every schedule, the counter stays above zero and \<open>Parse\<close> does not
  return nil: either it returns an error from its test after \<open>go\<close>, or it does not return.
\<close>

theorem Parse_never_succeeds_after_early_return:
  assumes "wg p = 0"
    and "Parse U n file p sched1 = Some c1"
    and "j < length (units c1)" and "units c1 ! j = (b, nd, k)"
    and "parsePredicates U b nd (Children b)
           \<lparr>uparser = parser c1, errp = slots c1 k, spawned = []\<rparr> = Return st'"
  shows "parseBlock U b nd \<lparr>uparser = parser c1, errp = slots c1 k, spawned = []\<rparr> = st'
     \<and> errp st' \<noteq> None
     \<and> wg (uparser st') = wg (parser c1) + int (length (spawned st'))
     \<and> (\<exists>c. Parse U n file p (sched1 @ Unit j # sched2) = Some c
            \<and> 0 < wg (parser c) \<and> main c \<noteq> Finished None)"
proof -
  from assms(2) obtain c0 where c0: "ParseStart U n file p = Some c0" and c1: "c1 = run U sched1 c0"
    by (auto simp: Parse_def)
  have "sound c0" using c0 assms(1) by (rule ParseStart_sound)
  then have s1: "sound c1" unfolding c1 by (rule run_sound)
  with assms(3) have m1: "main c1 \<noteq> Finished None" and d1: "0 \<le> surplus c1"
    by (auto simp: sound_def)
  have "surplus (stepUnit U j c1) = surplus c1 + 1"
    using assms(3,4,5) by (rule stepUnit_early)
  with d1 m1 have "stuck (stepUnit U j c1)"
    by (simp add: stuck_def surplus_def stepUnit_main)
  then have "stuck (run U sched2 (stepUnit U j c1))" by (rule run_stuck)
  moreover have "Parse U n file p (sched1 @ Unit j # sched2) = Some (run U sched2 (stepUnit U j c1))"
    by (simp add: Parse_def c0 c1 run_append)
  ultimately have "\<exists>c. Parse U n file p (sched1 @ Unit j # sched2) = Some c
      \<and> 0 < wg (parser c) \<and> main c \<noteq> Finished None"
    by (auto simp: stuck_def)
  moreover from parseBlock_wg(2) [OF _ assms(5)]
  have "parseBlock U b nd \<lparr>uparser = parser c1, errp = slots c1 k, spawned = []\<rparr> = st'
     \<and> errp st' \<noteq> None
     \<and> wg (uparser st') = wg (parser c1) + int (length (spawned st'))"
    by simp
  ultimately show ?thesis by blast
qed

theorem Parse_never_succeeds_after_early_return_witness:
  "\<exists>c. Parse textExt 5 (Some undeclaredPrefixDoc) (New textExt) ([Main] @ Unit 0 # [Main, Main]) = Some c
      \<and> 0 < wg (parser c) \<and> main c \<noteq> Finished None"
proof -
  let ?c1 = "run textExt [Main] (undeclaredStart textExt)"
  note f = undeclared_first_step [of textExt]
  have h1: "wg (New textExt) = 0" by (simp add: New_def)
  have h2: "Parse textExt 5 (Some undeclaredPrefixDoc) (New textExt) [Main] = Some ?c1"
    by (simp add: Parse_def ParseStart_undeclaredPrefixDoc undeclaredStart_def)
  have h3: "0 < length (units ?c1)" using f by simp
  have h4: "units ?c1 ! 0 = (undeclaredSubject, \<lparr>NodeType = BLANK, ID = BlankID textExt 0\<rparr>, 0)"
    using f by simp
  have ch: "Children undeclaredSubject
      = Block \<lparr>TagSchemaName = [], TagName = runes ''n'', Attrs = []\<rparr> (runes ''v'') [] # []"
    by (simp add: undeclaredSubject_def)
  have "schemaDefinition (uparser \<lparr>uparser = parser ?c1, errp = slots ?c1 0, spawned = []\<rparr>)
      (TagSchemaName (OpeningTag undeclaredSubject)) = None"
    using f by simp
  from parsePredicates_undeclared [OF ch this] obtain st' where h5:
    "parsePredicates textExt undeclaredSubject \<lparr>NodeType = BLANK, ID = BlankID textExt 0\<rparr>
        (Children undeclaredSubject) \<lparr>uparser = parser ?c1, errp = slots ?c1 0, spawned = []\<rparr> = Return st'"
    by blast
  from Parse_never_succeeds_after_early_return [OF h1 h2 h3 h4 h5, of "[Main, Main]"] show ?thesis by blast
qed


end
